theory Spec2Isabelle
  imports Complex_Main "HOL-Library.Word"
begin

section \<open>JavaScript strings\<close>

text \<open>
  A JavaScript string is a sequence of 16-bit code units. ASCII literals of the source are
  written \<open>js ''...''\<close>; the Korean literals are given by their code units further down.
\<close>

type_synonym char16 = "16 word"
type_synonym jsstring = "char16 list"

definition js :: "string \<Rightarrow> jsstring" where
  "js s = map of_char s"

text \<open>
  \<open>String.prototype.trim\<close> removes the WhiteSpace and LineTerminator code points of
  ECMA-262 from both ends.
\<close>

definition isWhiteSpace :: "char16 \<Rightarrow> bool" where
  "isWhiteSpace c \<longleftrightarrow>
     c = 0x09 \<or> c = 0x0A \<or> c = 0x0B \<or> c = 0x0C \<or> c = 0x0D \<or> c = 0x20 \<or> c = 0xA0 \<or>
     c = 0x1680 \<or> (0x2000 \<le> c \<and> c \<le> 0x200A) \<or> c = 0x2028 \<or> c = 0x2029 \<or>
     c = 0x202F \<or> c = 0x205F \<or> c = 0x3000 \<or> c = 0xFEFF"

definition trim :: "jsstring \<Rightarrow> jsstring" where
  "trim s = rev (dropWhile isWhiteSpace (rev (dropWhile isWhiteSpace s)))"

text \<open>Decimal rendering of a non-negative integer, as a template literal prints it.\<close>

definition digit_char :: "nat \<Rightarrow> char16" where
  "digit_char d = of_nat (48 + d)"

function decimal :: "nat \<Rightarrow> jsstring" where
  "decimal n = (if n < 10 then [digit_char n] else decimal (n div 10) @ [digit_char (n mod 10)])"
  by pat_completeness auto
termination
  by (relation "measure id") auto

declare decimal.simps [simp del]

section \<open>JSON values, \<open>JSON.stringify\<close> and \<open>JSON.parse\<close>\<close>

subsection \<open>Numbers\<close>

text \<open>
  A Number that \<open>JSON.parse\<close> can produce: a finite IEEE 754 double, given by its sign
  (\<open>True\<close> for minus, so that \<open>-0\<close> is a value of its own) and its magnitude, or an
  infinity, which a literal such as \<open>1e400\<close> denotes.
\<close>

datatype double = Finite bool rat | Infinite bool

definition ipow :: "int \<Rightarrow> int \<Rightarrow> rat" where
  "ipow b x = (if 0 \<le> x then of_int (b ^ nat x) else 1 / of_int (b ^ nat (- x)))"

text \<open>
  The number of digits of \<open>n\<close> in base \<open>b\<close>, and the integer part of the logarithm of a
  positive \<open>q\<close> in base \<open>b\<close>.
\<close>

function count_digits :: "int \<Rightarrow> int \<Rightarrow> int" where
  "count_digits b n = (if b < 2 \<or> n < b then 1 else 1 + count_digits b (n div b))"
  by pat_completeness auto
termination
  by (relation "measure (\<lambda>(b, n). nat n)") (auto intro: int_div_less_self)

declare count_digits.simps [simp del]

definition floor_log :: "int \<Rightarrow> rat \<Rightarrow> int" where
  "floor_log b q =
     (case quotient_of q of
        (n, d) \<Rightarrow>
          let t = count_digits b n - count_digits b d
          in if ipow b t \<le> q then t else t - 1)"

definition round_half_even :: "rat \<Rightarrow> int" where
  "round_half_even x =
     (let f = \<lfloor>x\<rfloor>; r = x - of_int f
      in if 1 / 2 < r \<or> (r = 1 / 2 \<and> odd f) then f + 1 else f)"

text \<open>
  The Number value for a non-negative rational \<open>q\<close>: the nearest double, the one with
  the even significand when two are equally near. A double is \<open>m * 2 ^ e\<close> with
  \<open>m < 2 ^ 53\<close> and \<open>-1074 \<le> e\<close>; what rounds to \<open>2 ^ 1024\<close> or more is infinite.
\<close>

definition to_double :: "bool \<Rightarrow> rat \<Rightarrow> double" where
  "to_double negative q =
     (if q = 0 then Finite negative 0
      else
        let e = max (floor_log 2 q - 52) (- 1074);
            m = round_half_even (q / ipow 2 e)
        in if ipow 2 1024 \<le> of_int m * ipow 2 e then Infinite negative
           else Finite negative (of_int m * ipow 2 e))"

definition is_digit :: "char16 \<Rightarrow> bool" where
  "is_digit c \<longleftrightarrow> 0x30 \<le> c \<and> c \<le> 0x39"

definition digits_value :: "jsstring \<Rightarrow> int" where
  "digits_value s = foldl (\<lambda>n c. 10 * n + (uint c - 48)) 0 s"

text \<open>
  The Number that a number literal of JSON denotes: the double nearest to its
  mathematical value.
\<close>

definition StringToNumber :: "jsstring \<Rightarrow> double" where
  "StringToNumber l =
     (let negative = (case l of c # cs \<Rightarrow> c = 0x2D | [] \<Rightarrow> False);
          unsigned = (if negative then tl l else l);
          int_digits = takeWhile is_digit unsigned;
          r1 = dropWhile is_digit unsigned;
          frac_digits = (case r1 of c # cs \<Rightarrow> if c = 0x2E then takeWhile is_digit cs else [] | [] \<Rightarrow> []);
          r2 = (case r1 of c # cs \<Rightarrow> if c = 0x2E then dropWhile is_digit cs else r1 | [] \<Rightarrow> r1);
          exponent = (case r2 of
                        [] \<Rightarrow> 0
                      | _ # cs \<Rightarrow>
                          (case cs of
                             [] \<Rightarrow> 0
                           | s # ds \<Rightarrow>
                               if s = 0x2D then - digits_value ds
                               else if s = 0x2B then digits_value ds
                               else digits_value cs))
      in to_double negative
           (of_int (digits_value (int_digits @ frac_digits)) *
            ipow 10 (exponent - int (length frac_digits))))"

text \<open>
  \<open>Number::toString\<close> of ECMA-262. For a positive \<open>v\<close> it takes integers \<open>n\<close>, \<open>k\<close>
  and \<open>s\<close> with \<open>k \<ge> 1\<close>, \<open>10 ^ (k - 1) \<le> s < 10 ^ k\<close>, the Number value of \<open>s * 10 ^ (n - k)\<close>
  equal to \<open>v\<close> and \<open>k\<close> as small as possible; of several \<open>s\<close> the one nearest to \<open>v\<close>,
  the even one of two equally near. A candidate lies next to \<open>v\<close>, so that for each \<open>k\<close>
  two values of \<open>n\<close> and two of \<open>s\<close> are tried. The search stops at 17 digits, which
  tell any two doubles apart; were nothing found, the digit \<open>1\<close> would be the result.
\<close>

definition digit_candidates :: "rat \<Rightarrow> nat \<Rightarrow> (int \<times> int) list" where
  "digit_candidates v k =
     [(s, n).
        n \<leftarrow> [floor_log 10 v + 1, floor_log 10 v + 2],
        s \<leftarrow> [\<lfloor>v / ipow 10 (n - int k)\<rfloor>, \<lfloor>v / ipow 10 (n - int k)\<rfloor> + 1],
        10 ^ (k - 1) \<le> s \<and> s < 10 ^ k \<and>
        to_double False (of_int s * ipow 10 (n - int k)) = to_double False v]"

definition nearer :: "rat \<Rightarrow> nat \<Rightarrow> int \<times> int \<Rightarrow> int \<times> int \<Rightarrow> bool" where
  "nearer v k a b =
     (let da = \<bar>of_int (fst a) * ipow 10 (snd a - int k) - v\<bar>;
          db = \<bar>of_int (fst b) * ipow 10 (snd b - int k) - v\<bar>
      in da < db \<or> (da = db \<and> even (fst a) \<and> odd (fst b)))"

definition shortest_digits :: "rat \<Rightarrow> int \<times> int" where
  "shortest_digits v =
     (case List.find (\<lambda>k. digit_candidates v k \<noteq> []) [1..<18] of
        None \<Rightarrow> (1, 1)
      | Some k \<Rightarrow>
          foldl (\<lambda>b c. if nearer v k c b then c else b)
            (hd (digit_candidates v k)) (tl (digit_candidates v k)))"

text \<open>The decimal digits of a non-negative integer.\<close>

function digits_of :: "int \<Rightarrow> jsstring" where
  "digits_of n =
     (if n < 10 then [of_int (48 + n)] else digits_of (n div 10) @ [of_int (48 + n mod 10)])"
  by pat_completeness auto
termination
  by (relation "measure nat") auto

declare digits_of.simps [simp del]

text \<open>The text for the digits \<open>ds\<close> of \<open>s\<close> and for \<open>n\<close>, by the four cases of the standard.\<close>

definition digits_toString :: "jsstring \<Rightarrow> int \<Rightarrow> jsstring" where
  "digits_toString ds n =
     (let k = int (length ds)
      in if k \<le> n \<and> n \<le> 21 then ds @ replicate (nat (n - k)) 0x30
         else if 0 < n \<and> n \<le> 21 then take (nat n) ds @ 0x2E # drop (nat n) ds
         else if - 6 < n \<and> n \<le> 0 then 0x30 # 0x2E # replicate (nat (- n)) 0x30 @ ds
         else (if k = 1 then ds else hd ds # 0x2E # tl ds) @
              0x65 # (if n - 1 < 0 then 0x2D else 0x2B) # digits_of \<bar>n - 1\<bar>)"

fun Number_toString :: "double \<Rightarrow> jsstring" where
  "Number_toString (Infinite negative) = (if negative then js ''-Infinity'' else js ''Infinity'')"
| "Number_toString (Finite negative v) =
     (if v = 0 then js ''0''
      else (if negative then [0x2D] else []) @
           (case shortest_digits v of (s, n) \<Rightarrow> digits_toString (digits_of s) n))"

subsection \<open>Values\<close>

text \<open>
  The values \<open>JSON.parse\<close> can produce. An object keeps its properties in enumeration
  order.
\<close>

datatype json =
    JNull
  | JBool bool
  | JNum double
  | JStr jsstring
  | JArr "json list"
  | JObj "(jsstring \<times> json) list"

subsection \<open>Serialisation\<close>

definition hex_digit :: "nat \<Rightarrow> char16" where
  "hex_digit d = (if d < 10 then of_nat (48 + d) else of_nat (87 + d))"

definition unicode_escape :: "char16 \<Rightarrow> jsstring" where
  "unicode_escape c =
     [0x5C, 0x75,
      hex_digit (unat c div 4096 mod 16), hex_digit (unat c div 256 mod 16),
      hex_digit (unat c div 16 mod 16), hex_digit (unat c mod 16)]"

definition is_high_surrogate :: "char16 \<Rightarrow> bool" where
  "is_high_surrogate c \<longleftrightarrow> 0xD800 \<le> c \<and> c \<le> 0xDBFF"

definition is_low_surrogate :: "char16 \<Rightarrow> bool" where
  "is_low_surrogate c \<longleftrightarrow> 0xDC00 \<le> c \<and> c \<le> 0xDFFF"

text \<open>One code unit that is not part of a surrogate pair, as QuoteJSONString writes it.\<close>

definition quote_unit :: "char16 \<Rightarrow> jsstring" where
  "quote_unit c =
     (if c = 0x08 then [0x5C, 0x62]
      else if c = 0x09 then [0x5C, 0x74]
      else if c = 0x0A then [0x5C, 0x6E]
      else if c = 0x0C then [0x5C, 0x66]
      else if c = 0x0D then [0x5C, 0x72]
      else if c = 0x22 then [0x5C, 0x22]
      else if c = 0x5C then [0x5C, 0x5C]
      else if c < 0x20 \<or> is_high_surrogate c \<or> is_low_surrogate c then unicode_escape c
      else [c])"

fun quote_body :: "jsstring \<Rightarrow> jsstring" where
  "quote_body [] = []"
| "quote_body [c] = quote_unit c"
| "quote_body (c # d # cs) =
     (if is_high_surrogate c \<and> is_low_surrogate d then c # d # quote_body cs
      else quote_unit c @ quote_body (d # cs))"

definition QuoteJSONString :: "jsstring \<Rightarrow> jsstring" where
  "QuoteJSONString s = 0x22 # quote_body s @ [0x22]"

text \<open>
  \<open>JSON.stringify\<close> of a value, without indentation. A finite number is written by
  \<open>Number::toString\<close> and an infinite one as \<open>null\<close>.
\<close>

fun intersperse :: "'a list \<Rightarrow> 'a list list \<Rightarrow> 'a list" where
  "intersperse sep [] = []"
| "intersperse sep [x] = x"
| "intersperse sep (x # y # ys) = x @ sep @ intersperse sep (y # ys)"

fun JSON_stringify :: "json \<Rightarrow> jsstring" where
  "JSON_stringify JNull = js ''null''"
| "JSON_stringify (JBool b) = (if b then js ''true'' else js ''false'')"
| "JSON_stringify (JNum d) = (case d of Finite negative v \<Rightarrow> Number_toString d | Infinite negative \<Rightarrow> js ''null'')"
| "JSON_stringify (JStr s) = QuoteJSONString s"
| "JSON_stringify (JArr vs) = 0x5B # intersperse [0x2C] (map JSON_stringify vs) @ [0x5D]"
| "JSON_stringify (JObj ms) =
     0x7B # intersperse [0x2C]
       (map (\<lambda>(k, v). QuoteJSONString k @ 0x3A # JSON_stringify v) ms) @ [0x7D]"

subsection \<open>Lexical analysis\<close>

datatype token =
    TLBrace | TRBrace | TLBracket | TRBracket | TColon | TComma
  | TString jsstring | TNumber jsstring | TTrue | TFalse | TNull

definition is_json_ws :: "char16 \<Rightarrow> bool" where
  "is_json_ws c \<longleftrightarrow> c = 0x09 \<or> c = 0x0A \<or> c = 0x0D \<or> c = 0x20"

definition hex_value :: "char16 \<Rightarrow> nat option" where
  "hex_value c =
     (if 0x30 \<le> c \<and> c \<le> 0x39 then Some (unat c - 48)
      else if 0x41 \<le> c \<and> c \<le> 0x46 then Some (unat c - 55)
      else if 0x61 \<le> c \<and> c \<le> 0x66 then Some (unat c - 87)
      else None)"

definition hex4 :: "char16 \<Rightarrow> char16 \<Rightarrow> char16 \<Rightarrow> char16 \<Rightarrow> char16 option" where
  "hex4 a b c d =
     (case (hex_value a, hex_value b, hex_value c, hex_value d) of
        (Some x, Some y, Some z, Some w) \<Rightarrow> Some (of_nat (((x * 16 + y) * 16 + z) * 16 + w))
      | _ \<Rightarrow> None)"

definition unescape :: "char16 \<Rightarrow> char16 option" where
  "unescape e =
     (if e = 0x22 then Some 0x22
      else if e = 0x5C then Some 0x5C
      else if e = 0x2F then Some 0x2F
      else if e = 0x62 then Some 0x08
      else if e = 0x66 then Some 0x0C
      else if e = 0x6E then Some 0x0A
      else if e = 0x72 then Some 0x0D
      else if e = 0x74 then Some 0x09
      else None)"

definition cons_fst :: "'a \<Rightarrow> ('a list \<times> 'b) option \<Rightarrow> ('a list \<times> 'b) option" where
  "cons_fst c r = map_option (\<lambda>(s, rest). (c # s, rest)) r"

text \<open>
  The characters of a string literal after its opening quote: the decoded string and
  the input left after the closing quote.
\<close>

function lex_string :: "jsstring \<Rightarrow> (jsstring \<times> jsstring) option" where
  "lex_string s =
     (case s of
        [] \<Rightarrow> None
      | c # cs \<Rightarrow>
          if c = 0x22 then Some ([], cs)
          else if c = 0x5C then
            (case cs of
               [] \<Rightarrow> None
             | e # cs' \<Rightarrow>
                 if e = 0x75 then
                   (case cs' of
                      h1 # h2 # h3 # h4 # cs'' \<Rightarrow>
                        (case hex4 h1 h2 h3 h4 of
                           None \<Rightarrow> None
                         | Some u \<Rightarrow> cons_fst u (lex_string cs''))
                    | _ \<Rightarrow> None)
                 else
                   (case unescape e of
                      None \<Rightarrow> None
                    | Some u \<Rightarrow> cons_fst u (lex_string cs')))
          else if c < 0x20 then None
          else cons_fst c (lex_string cs))"
  by pat_completeness auto
termination
  by (relation "measure length") auto

text \<open>
  A number literal: \<open>-? (0 | [1-9][0-9]*) (. [0-9]+)? ([eE] [+-]? [0-9]+)?\<close>. The
  result is the literal and the input after it.
\<close>

definition lex_int :: "jsstring \<Rightarrow> (jsstring \<times> jsstring) option" where
  "lex_int s =
     (case s of
        [] \<Rightarrow> None
      | c # cs \<Rightarrow>
          if c = 0x30 then Some ([c], cs)
          else if is_digit c then Some (c # takeWhile is_digit cs, dropWhile is_digit cs)
          else None)"

definition lex_frac :: "jsstring \<Rightarrow> (jsstring \<times> jsstring) option" where
  "lex_frac s =
     (case s of
        c # cs \<Rightarrow>
          if c = 0x2E then
            (if takeWhile is_digit cs = [] then None
             else Some (c # takeWhile is_digit cs, dropWhile is_digit cs))
          else Some ([], s)
      | [] \<Rightarrow> Some ([], s))"

definition lex_exp :: "jsstring \<Rightarrow> (jsstring \<times> jsstring) option" where
  "lex_exp s =
     (case s of
        c # cs \<Rightarrow>
          if c = 0x65 \<or> c = 0x45 then
            (let sign = (case cs of d # _ \<Rightarrow> if d = 0x2B \<or> d = 0x2D then [d] else [] | [] \<Rightarrow> []);
                 ds = drop (length sign) cs
             in if takeWhile is_digit ds = [] then None
                else Some (c # sign @ takeWhile is_digit ds, dropWhile is_digit ds))
          else Some ([], s)
      | [] \<Rightarrow> Some ([], s))"

definition lex_number :: "jsstring \<Rightarrow> (jsstring \<times> jsstring) option" where
  "lex_number s =
     (let sign = (case s of c # _ \<Rightarrow> if c = 0x2D then [c] else [] | [] \<Rightarrow> [])
      in case lex_int (drop (length sign) s) of
           None \<Rightarrow> None
         | Some (i, r1) \<Rightarrow>
             (case lex_frac r1 of
                None \<Rightarrow> None
              | Some (f, r2) \<Rightarrow>
                  (case lex_exp r2 of
                     None \<Rightarrow> None
                   | Some (e, r3) \<Rightarrow> Some (sign @ i @ f @ e, r3))))"

lemma cons_fst_Some:
  "cons_fst c r = Some (s, rest) \<longleftrightarrow> (\<exists>s'. r = Some (s', rest) \<and> s = c # s')"
  by (cases r) (auto simp: cons_fst_def)

declare lex_string.simps [simp del]

lemma lex_string_length: "lex_string s = Some (t, r) \<Longrightarrow> length r < length s"
proof (induction s arbitrary: t rule: length_induct)
  case (1 s)
  have IH: "lex_string s' = Some (t', r) \<Longrightarrow> length s' < length s \<Longrightarrow> length r < length s'"
    for s' t'
    using "1.IH" by blast
  from "1.prems" show ?case
    apply (subst (asm) lex_string.simps)
    apply (auto simp: cons_fst_Some split: list.splits if_splits option.splits)
    apply (drule IH, simp, simp)+
    done
qed

lemma lex_int_length: "lex_int s = Some (t, r) \<Longrightarrow> length r < length s"
  by (auto simp: lex_int_def less_Suc_eq_le length_dropWhile_le split: list.splits if_splits)

lemma lex_frac_length: "lex_frac s = Some (t, r) \<Longrightarrow> length r \<le> length s"
  by (auto simp: lex_frac_def le_SucI length_dropWhile_le split: list.splits if_splits)

lemma lex_exp_length: "lex_exp s = Some (t, r) \<Longrightarrow> length r \<le> length s"
proof -
  have "length (dropWhile is_digit (drop n cs)) \<le> Suc (length cs)" for n and cs :: jsstring
    using length_dropWhile_le [of is_digit "drop n cs"] by simp
  then show "lex_exp s = Some (t, r) \<Longrightarrow> length r \<le> length s"
    by (auto simp: lex_exp_def Let_def le_SucI length_dropWhile_le split: list.splits if_splits)
qed

lemma lex_number_length: "lex_number s = Some (t, r) \<Longrightarrow> length r < length s"
proof -
  assume a: "lex_number s = Some (t, r)"
  then obtain n i r1 f r2 e where
    i: "lex_int (drop n s) = Some (i, r1)" and f: "lex_frac r1 = Some (f, r2)"
    and e: "lex_exp r2 = Some (e, r)"
    by (auto simp: lex_number_def Let_def split: option.splits)
  have "length r1 < length (drop n s)" using i by (rule lex_int_length)
  moreover have "length r2 \<le> length r1" using f by (rule lex_frac_length)
  moreover have "length r \<le> length r2" using e by (rule lex_exp_length)
  ultimately show ?thesis by simp
qed

function lex :: "jsstring \<Rightarrow> token list option" where
  "lex [] = Some []"
| "lex (c # cs) =
     (if is_json_ws c then lex cs
      else if c = 0x7B then map_option ((#) TLBrace) (lex cs)
      else if c = 0x7D then map_option ((#) TRBrace) (lex cs)
      else if c = 0x5B then map_option ((#) TLBracket) (lex cs)
      else if c = 0x5D then map_option ((#) TRBracket) (lex cs)
      else if c = 0x3A then map_option ((#) TColon) (lex cs)
      else if c = 0x2C then map_option ((#) TComma) (lex cs)
      else if c = 0x22 then
        (case lex_string cs of
           None \<Rightarrow> None
         | Some (s, r) \<Rightarrow> map_option ((#) (TString s)) (lex r))
      else if c = 0x74 then
        (if take 3 cs = js ''rue'' then map_option ((#) TTrue) (lex (drop 3 cs)) else None)
      else if c = 0x66 then
        (if take 4 cs = js ''alse'' then map_option ((#) TFalse) (lex (drop 4 cs)) else None)
      else if c = 0x6E then
        (if take 3 cs = js ''ull'' then map_option ((#) TNull) (lex (drop 3 cs)) else None)
      else
        (case lex_number (c # cs) of
           None \<Rightarrow> None
         | Some (l, r) \<Rightarrow> map_option ((#) (TNumber l)) (lex r)))"
  by pat_completeness auto
termination
  by (relation "measure length")
     (auto dest: lex_string_length lex_number_length)

subsection \<open>Parsing\<close>

text \<open>
  An array index is the canonical decimal text of an integer below \<open>2^32 - 1\<close>. An
  object enumerates its array-index keys first, in ascending order, and then its other
  keys in the order of their creation; a repeated key keeps its place and takes the last
  value.
\<close>

definition is_array_index :: "jsstring \<Rightarrow> bool" where
  "is_array_index k \<longleftrightarrow>
     k \<noteq> [] \<and> list_all is_digit k \<and> (hd k = 0x30 \<longrightarrow> length k = 1) \<and>
     length k \<le> 10 \<and> digits_value k < 4294967295"

fun insert_index :: "jsstring \<Rightarrow> json \<Rightarrow> (jsstring \<times> json) list \<Rightarrow> (jsstring \<times> json) list" where
  "insert_index k v [] = [(k, v)]"
| "insert_index k v ((k', v') # ms) =
     (if is_array_index k' \<and> digits_value k' < digits_value k
      then (k', v') # insert_index k v ms
      else (k, v) # (k', v') # ms)"

definition obj_set :: "(jsstring \<times> json) list \<Rightarrow> jsstring \<Rightarrow> json \<Rightarrow> (jsstring \<times> json) list" where
  "obj_set ms k v =
     (if k \<in> fst ` set ms then map (\<lambda>(k', v'). if k' = k then (k', v) else (k', v')) ms
      else if is_array_index k then insert_index k v ms
      else ms @ [(k, v)])"

text \<open>
  The parser reads the tokens from left to right and keeps the containers that are still
  open on a stack.
\<close>

datatype frame =
    FArr "json list"
  | FObj "(jsstring \<times> json) list"
  | FObjKey "(jsstring \<times> json) list" jsstring

datatype pmode =
    PValue | PValueOrEnd | PKey | PKeyOrEnd | PColon jsstring | PAfter | PDone json | PError

type_synonym pstate = "pmode \<times> frame list"

definition perror :: pstate where
  "perror = (PError, [])"

fun complete_value :: "json \<Rightarrow> frame list \<Rightarrow> pstate" where
  "complete_value v [] = (PDone v, [])"
| "complete_value v (FArr vs # fs) = (PAfter, FArr (v # vs) # fs)"
| "complete_value v (FObjKey ms k # fs) = (PAfter, FObj (obj_set ms k v) # fs)"
| "complete_value v (FObj ms # fs) = perror"

fun begin_value :: "token \<Rightarrow> frame list \<Rightarrow> pstate" where
  "begin_value TNull fs = complete_value JNull fs"
| "begin_value TTrue fs = complete_value (JBool True) fs"
| "begin_value TFalse fs = complete_value (JBool False) fs"
| "begin_value (TString s) fs = complete_value (JStr s) fs"
| "begin_value (TNumber l) fs = complete_value (JNum (StringToNumber l)) fs"
| "begin_value TLBracket fs = (PValueOrEnd, FArr [] # fs)"
| "begin_value TLBrace fs = (PKeyOrEnd, FObj [] # fs)"
| "begin_value _ fs = perror"

fun close_array :: "frame list \<Rightarrow> pstate" where
  "close_array (FArr vs # fs) = complete_value (JArr (rev vs)) fs"
| "close_array _ = perror"

fun close_object :: "frame list \<Rightarrow> pstate" where
  "close_object (FObj ms # fs) = complete_value (JObj ms) fs"
| "close_object _ = perror"

fun read_key :: "token \<Rightarrow> frame list \<Rightarrow> pstate" where
  "read_key (TString k) fs = (PColon k, fs)"
| "read_key _ fs = perror"

fun pstep :: "pstate \<Rightarrow> token \<Rightarrow> pstate" where
  "pstep (PValue, fs) t = begin_value t fs"
| "pstep (PValueOrEnd, fs) t = (if t = TRBracket then close_array fs else begin_value t fs)"
| "pstep (PKey, fs) t = read_key t fs"
| "pstep (PKeyOrEnd, fs) t = (if t = TRBrace then close_object fs else read_key t fs)"
| "pstep (PColon k, fs) t =
     (case (t, fs) of (TColon, FObj ms # fs') \<Rightarrow> (PValue, FObjKey ms k # fs') | _ \<Rightarrow> perror)"
| "pstep (PAfter, fs) t =
     (case t of
        TComma \<Rightarrow> (case fs of FArr vs # _ \<Rightarrow> (PValue, fs) | FObj ms # _ \<Rightarrow> (PKey, fs) | _ \<Rightarrow> perror)
      | TRBracket \<Rightarrow> close_array fs
      | TRBrace \<Rightarrow> close_object fs
      | _ \<Rightarrow> perror)"
| "pstep (PDone v, fs) t = perror"
| "pstep (PError, fs) t = perror"

definition parse_tokens :: "token list \<Rightarrow> json option" where
  "parse_tokens ts = (case foldl pstep (PValue, []) ts of (PDone v, _) \<Rightarrow> Some v | _ \<Rightarrow> None)"

text \<open>\<open>JSON.parse\<close>: \<open>None\<close> stands for the SyntaxError it throws.\<close>

definition JSON_parse :: "jsstring \<Rightarrow> json option" where
  "JSON_parse s = (case lex s of None \<Rightarrow> None | Some ts \<Rightarrow> parse_tokens ts)"


subsection \<open>Values that are written and read back\<close>

text \<open>The tokens of the text of a value.\<close>

fun tokens :: "json \<Rightarrow> token list" where
  "tokens JNull = [TNull]"
| "tokens (JBool b) = [if b then TTrue else TFalse]"
| "tokens (JNum d) =
     (case d of Finite negative v \<Rightarrow> [TNumber (Number_toString d)] | Infinite negative \<Rightarrow> [TNull])"
| "tokens (JStr s) = [TString s]"
| "tokens (JArr vs) = TLBracket # intersperse [TComma] (map tokens vs) @ [TRBracket]"
| "tokens (JObj ms) =
     TLBrace # intersperse [TComma] (map (\<lambda>(k, v). TString k # TColon # tokens v) ms) @ [TRBrace]"

text \<open>
  What a reader of the text of a value sees, \<open>JSON.parse (JSON.stringify v)\<close>: an infinite
  number has become \<open>null\<close>, a finite one is read from its digits, and the properties of
  an object are entered one after the other.
\<close>

fun reread :: "json \<Rightarrow> json" where
  "reread JNull = JNull"
| "reread (JBool b) = JBool b"
| "reread (JNum d) =
     (case d of
        Finite negative v \<Rightarrow> JNum (StringToNumber (Number_toString d))
      | Infinite negative \<Rightarrow> JNull)"
| "reread (JStr s) = JStr s"
| "reread (JArr vs) = JArr (map reread vs)"
| "reread (JObj ms) =
     JObj (foldl (\<lambda>acc (k, v). obj_set acc k v) [] (map (\<lambda>(k, v). (k, reread v)) ms))"

text \<open>
  A value without numbers whose objects have no key twice and no array index as a key:
  its properties are enumerated in the order in which they are written.
\<close>

fun plain :: "json \<Rightarrow> bool" where
  "plain JNull = True"
| "plain (JBool b) = True"
| "plain (JNum d) = False"
| "plain (JStr s) = True"
| "plain (JArr vs) = list_all plain vs"
| "plain (JObj ms) =
     (list_all (\<lambda>(k, v). plain v) ms \<and> distinct (map fst ms) \<and>
      list_all (\<lambda>(k, v). \<not> is_array_index k) ms)"

text \<open>The tokens \<open>a\<close> in front of the result of lexing what follows.\<close>

definition prepend :: "token list \<Rightarrow> token list option \<Rightarrow> token list option" where
  "prepend a r = map_option ((@) a) r"

text \<open>What may follow a value inside a text: nothing, a comma or a closing bracket.\<close>

definition delimited :: "jsstring \<Rightarrow> bool" where
  "delimited rest \<longleftrightarrow> (case rest of [] \<Rightarrow> True | c # cs \<Rightarrow> c = 0x2C \<or> c = 0x5D \<or> c = 0x7D)"

section \<open>Reading properties of JavaScript values\<close>

text \<open>
  \<open>get_prop v k\<close> is \<open>v.k\<close> for a value \<open>v\<close> that is neither \<open>null\<close> nor \<open>undefined\<close>;
  \<open>None\<close> is \<open>undefined\<close>. It is used for the property names this program reads
  (\<open>type\<close>, \<open>config\<close>, \<open>notification\<close>, \<open>title\<close>, \<open>body\<close>, \<open>icon\<close>, \<open>data\<close>), none of which
  a built-in prototype defines, so that only an object has them.
\<close>

fun get_prop :: "json \<Rightarrow> jsstring \<Rightarrow> json option" where
  "get_prop (JObj ms) k = map_of ms k"
| "get_prop _ k = None"

text \<open>\<open>v?.k\<close>: \<open>undefined\<close> when \<open>v\<close> is \<open>null\<close> or \<open>undefined\<close>.\<close>

fun opt_prop :: "json option \<Rightarrow> jsstring \<Rightarrow> json option" where
  "opt_prop None k = None"
| "opt_prop (Some JNull) k = None"
| "opt_prop (Some v) k = get_prop v k"

text \<open>\<open>v ?? d\<close>: \<open>d\<close> when \<open>v\<close> is \<open>null\<close> or \<open>undefined\<close>.\<close>

fun nullish_or :: "json option \<Rightarrow> json \<Rightarrow> json" where
  "nullish_or None d = d"
| "nullish_or (Some JNull) d = d"
| "nullish_or (Some v) d = v"

text \<open>\<open>if (v)\<close> and \<open>!v\<close> for a value: \<open>null\<close>, \<open>false\<close>, zero and the empty string are false.\<close>

fun truthy :: "json \<Rightarrow> bool" where
  "truthy JNull = False"
| "truthy (JBool b) = b"
| "truthy (JNum d) = (case d of Finite negative v \<Rightarrow> v \<noteq> 0 | Infinite negative \<Rightarrow> True)"
| "truthy (JStr s) = (s \<noteq> [])"
| "truthy (JArr vs) = True"
| "truthy (JObj ms) = True"

section \<open>The service worker (firebase-messaging-sw.js)\<close>

definition BACKGROUND_TITLE :: jsstring where \<comment> \<open>the default title: background message\<close>
  "BACKGROUND_TITLE =
    [0xBC31, 0xADF8, 0xB77C, 0xC6B4, 0xB4DC, 0x0020, 0xBA54, 0xC2DC, 0xC9C0]"

definition PUSH_TITLE :: jsstring where \<comment> \<open>the default title: push notification\<close>
  "PUSH_TITLE =
    [0xD478, 0xC2DC, 0x0020, 0xC54C, 0xB9BC]"


text \<open>The arguments of one call of \<open>self.registration.showNotification\<close>.\<close>

record notification =
  n_title :: json
  n_body :: json
  n_icon :: json
  n_data :: "json option"

text \<open>
  The worker's two variables, and what it has done to the messaging library and to the
  browser: \<open>apps\<close> is \<open>firebase.apps\<close> (each app by its options),
  \<open>onBackgroundMessageCalls\<close> counts the calls of \<open>onBackgroundMessage\<close>, \<open>shown\<close> lists
  the notifications shown (the latest first), \<open>errors\<close> counts the calls of
  \<open>console.error\<close> and \<open>uncaught\<close> the exceptions that left a listener uncaught.
\<close>

record sw_state =
  messagingInstance :: "json option"
  backgroundHandlerRegistered :: bool
  apps :: "json list"
  onBackgroundMessageCalls :: nat
  shown :: "notification list"
  errors :: nat
  uncaught :: nat

definition sw_initial :: sw_state where
  "sw_initial =
     \<lparr>messagingInstance = None, backgroundHandlerRegistered = False, apps = [],
      onBackgroundMessageCalls = 0, shown = [], errors = 0, uncaught = 0\<rparr>"

text \<open>
  \<open>config && typeof config === 'object'\<close> for a value that is not \<open>undefined\<close>: an
  object or an array (\<open>null\<close> is an object by its type, and false as a condition).
\<close>

fun is_object :: "json \<Rightarrow> bool" where
  "is_object (JObj ms) = True"
| "is_object (JArr vs) = True"
| "is_object _ = False"

text \<open>
  The callback given to \<open>onBackgroundMessage\<close>: the notification it shows for a
  payload. The payload the library passes is an object; reading a property of \<open>null\<close>
  throws a TypeError, here \<open>None\<close>.
\<close>

definition backgroundMessageHandler :: "json \<Rightarrow> notification option" where
  "backgroundMessageHandler payload =
     (if payload = JNull then None
      else Some
        \<lparr>n_title = nullish_or (opt_prop (get_prop payload (js ''notification'')) (js ''title''))
                  (JStr BACKGROUND_TITLE),
         n_body = nullish_or (opt_prop (get_prop payload (js ''notification'')) (js ''body''))
                  (JStr []),
         n_icon = nullish_or (opt_prop (get_prop payload (js ''notification'')) (js ''icon''))
                  (JStr (js ''/vite.svg'')),
         n_data = Some (nullish_or (get_prop payload (js ''data'')) (JObj []))\<rparr>)"

text \<open>
  What the messaging library, which the worker imports, answers: the value of
  \<open>firebase.messaging.isSupported()\<close>, the options for which \<open>firebase.initializeApp\<close>
  throws, and the apps, each by its options, for which \<open>firebase.messaging()\<close> throws
  instead of returning the messaging service, as it does for options that it does not
  accept.
\<close>

record firebase =
  messaging_isSupported :: bool
  initializeApp_throws :: "json \<Rightarrow> bool"
  messaging_throws :: "json \<Rightarrow> bool"

text \<open>
  \<open>initializeMessaging(config)\<close>. \<open>firebase.messaging()\<close> is the messaging service of
  the default app, the first of \<open>firebase.apps\<close>, and throws when there is no app. The
  worker catches nothing here: an exception of the library ends the function, and the
  listener that called it, at the call that throws, so that the assignments after it are
  not made. In a worker \<open>onBackgroundMessage\<close> stores the callback and returns.
\<close>

definition initializeMessaging :: "firebase \<Rightarrow> json option \<Rightarrow> sw_state \<Rightarrow> sw_state" where
  "initializeMessaging lib config st =
     (case config of
        None \<Rightarrow> st
      | Some c \<Rightarrow>
          if \<not> is_object c then st
          else if length (apps st) = 0 \<and> initializeApp_throws lib c
          then st\<lparr>uncaught := Suc (uncaught st)\<rparr>
          else
            let st1 = (if length (apps st) = 0 then st\<lparr>apps := [c]\<rparr> else st)
            in if messaging_isSupported lib then
                 (case apps st1 of
                    [] \<Rightarrow> st1\<lparr>uncaught := Suc (uncaught st1)\<rparr>
                  | app # _ \<Rightarrow>
                      if messaging_throws lib app then st1\<lparr>uncaught := Suc (uncaught st1)\<rparr>
                      else
                        let st2 = st1\<lparr>messagingInstance := Some app\<rparr>
                        in if \<not> backgroundHandlerRegistered st2
                           then st2\<lparr>onBackgroundMessageCalls := Suc (onBackgroundMessageCalls st2),
                                    backgroundHandlerRegistered := True\<rparr>
                           else st2)
               else st1)"


text \<open>
  The listener of \<open>message\<close> events; \<open>d\<close> is \<open>event.data\<close>, taken to be a value as
  JSON has them, with \<open>JNull\<close> for \<open>undefined\<close> too.
\<close>

definition onMessageEvent :: "firebase \<Rightarrow> json \<Rightarrow> sw_state \<Rightarrow> sw_state" where
  "onMessageEvent lib d st =
     (if opt_prop (Some d) (js ''type'') = Some (JStr (js ''INIT_FIREBASE''))
      then initializeMessaging lib (get_prop d (js ''config'')) st
      else st)"

text \<open>
  The listener of \<open>push\<close> events; \<open>d\<close> is the text of \<open>event.data\<close>, \<open>None\<close> when the
  event has no data. \<open>event.data.json()\<close> parses the text.
\<close>

definition onPushEvent :: "jsstring option \<Rightarrow> sw_state \<Rightarrow> sw_state" where
  "onPushEvent d st =
     (if messagingInstance st \<noteq> None then st
      else case d of
        None \<Rightarrow> st
      | Some text \<Rightarrow>
          (case JSON_parse text of
             None \<Rightarrow> st\<lparr>errors := Suc (errors st)\<rparr>
           | Some payload \<Rightarrow>
               if payload = JNull then st\<lparr>errors := Suc (errors st)\<rparr>
               else st\<lparr>shown :=
                 \<lparr>n_title = nullish_or (opt_prop (get_prop payload (js ''notification'')) (js ''title''))
                           (JStr PUSH_TITLE),
                  n_body = nullish_or (opt_prop (get_prop payload (js ''notification'')) (js ''body''))
                           (JStr []),
                  n_icon = nullish_or (opt_prop (get_prop payload (js ''notification'')) (js ''icon''))
                           (JStr (js ''/vite.svg'')),
                  n_data = None\<rparr> # shown st\<rparr>))"

text \<open>
  What reaches the worker: a \<open>message\<close> event, a \<open>push\<close> event as the worker's own
  listener sees it, or a background message, which the messaging library hands to the
  callback registered with \<open>onBackgroundMessage\<close> when there is one. A callback that
  throws shows nothing.
\<close>

datatype sw_event =
    MessageEvent json
  | PushEvent "jsstring option"
  | BackgroundMessage json

definition deliverBackgroundMessage :: "json \<Rightarrow> sw_state \<Rightarrow> sw_state" where
  "deliverBackgroundMessage payload st =
     (if onBackgroundMessageCalls st = 0 then st
      else case backgroundMessageHandler payload of
        None \<Rightarrow> st
      | Some nt \<Rightarrow> st\<lparr>shown := nt # shown st\<rparr>)"

fun sw_step :: "firebase \<Rightarrow> sw_state \<Rightarrow> sw_event \<Rightarrow> sw_state" where
  "sw_step lib st (MessageEvent d) = onMessageEvent lib d st"
| "sw_step lib st (PushEvent d) = onPushEvent d st"
| "sw_step lib st (BackgroundMessage p) = deliverBackgroundMessage p st"

definition sw_run :: "firebase \<Rightarrow> sw_event list \<Rightarrow> sw_state" where
  "sw_run lib evs = foldl (sw_step lib) sw_initial evs"

text \<open>
  For comparison with the listeners, the words of the specification as a definition: the
  notification field \<open>f\<close> of a payload, or \<open>d\<close> when the payload has no \<open>notification\<close>
  object, or when that object has no \<open>f\<close> or a \<open>null\<close> one.
\<close>

definition notification_field :: "json \<Rightarrow> jsstring \<Rightarrow> json \<Rightarrow> json" where
  "notification_field payload f d =
     (case payload of
        JObj ms \<Rightarrow>
          (case map_of ms (js ''notification'') of
             Some (JObj ns) \<Rightarrow>
               (case map_of ns f of None \<Rightarrow> d | Some v \<Rightarrow> if v = JNull then d else v)
           | _ \<Rightarrow> d)
      | _ \<Rightarrow> d)"


text \<open>
  For the examples: a library that supports messaging and, as the messaging library of
  firebase 9 does, refuses the messaging service to an app in whose options one of
  \<open>projectId\<close>, \<open>apiKey\<close>, \<open>appId\<close> and \<open>messagingSenderId\<close> is missing or empty; a
  complete configuration and the message that carries it; and the message that carries
  the empty configuration \<open>{}\<close>.
\<close>

definition example_firebase :: firebase where
  "example_firebase =
     \<lparr>messaging_isSupported = True,
      initializeApp_throws = (\<lambda>options. False),
      messaging_throws =
        (\<lambda>options.
           list_ex (\<lambda>k. case get_prop options k of None \<Rightarrow> True | Some v \<Rightarrow> \<not> truthy v)
             [js ''projectId'', js ''apiKey'', js ''appId'', js ''messagingSenderId''])\<rparr>"

definition example_config :: json where
  "example_config =
     JObj [(js ''apiKey'', JStr (js ''AIzaSy-example'')),
           (js ''authDomain'', JStr (js ''demo.firebaseapp.com'')),
           (js ''projectId'', JStr (js ''demo'')),
           (js ''storageBucket'', JStr (js ''demo.appspot.com'')),
           (js ''messagingSenderId'', JStr (js ''1234567890'')),
           (js ''appId'', JStr (js ''1:1234567890:web:abcdef''))]"

definition example_init_message :: json where
  "example_init_message =
     JObj [(js ''type'', JStr (js ''INIT_FIREBASE'')), (js ''config'', example_config)]"

definition empty_init_message :: json where
  "empty_init_message =
     JObj [(js ''type'', JStr (js ''INIT_FIREBASE'')), (js ''config'', JObj [])]"

section \<open>The page (App.tsx)\<close>

subsection \<open>Data\<close>

record FirebaseConfig =
  apiKey :: jsstring
  authDomain :: jsstring
  projectId :: jsstring
  storageBucket :: jsstring
  messagingSenderId :: jsstring
  appId :: jsstring

record PushMessagePayload =
  pm_title :: jsstring
  pm_body :: jsstring
  pm_imageUrl :: jsstring
  pm_data :: jsstring

definition LOCAL_STORAGE_KEY :: jsstring where
  "LOCAL_STORAGE_KEY = js ''fcm-webpush-settings''"

definition defaultConfig :: FirebaseConfig where
  "defaultConfig =
     \<lparr>apiKey = [], authDomain = [], projectId = [], storageBucket = [],
      messagingSenderId = [], appId = []\<rparr>"

datatype status_type = Info | Success | Error

record StatusMessage =
  sm_type :: status_type
  sm_text :: jsstring
  sm_timestamp :: int

text \<open>The texts of the source, by their code units, each with its meaning.\<close>

definition MSG_NO_SERVICE_WORKER :: jsstring where \<comment> \<open>this environment does not support service workers\<close>
  "MSG_NO_SERVICE_WORKER =
    [0xC11C, 0xBE44, 0xC2A4, 0x0020, 0xC6CC, 0xCEE4, 0xB97C, 0x0020, 0xC9C0, 0xC6D0, 0xD558,
     0xC9C0, 0x0020, 0xC54A, 0xB294, 0x0020, 0xD658, 0xACBD, 0xC785, 0xB2C8, 0xB2E4, 0x002E]"

definition MSG_FCM_UNSUPPORTED :: jsstring where \<comment> \<open>this browser does not support FCM web push\<close>
  "MSG_FCM_UNSUPPORTED =
    [0xC774, 0x0020, 0xBE0C, 0xB77C, 0xC6B0, 0xC800, 0xC5D0, 0xC11C, 0xB294, 0x0020, 0x0046,
     0x0043, 0x004D, 0x0020, 0xC6F9, 0x0020, 0xD478, 0xC2DC, 0xB97C, 0x0020, 0xC9C0, 0xC6D0,
     0xD558, 0xC9C0, 0x0020, 0xC54A, 0xC2B5, 0xB2C8, 0xB2E4, 0x002E]"

definition MSG_APPS_RESET :: jsstring where \<comment> \<open>the existing Firebase apps were reset\<close>
  "MSG_APPS_RESET =
    [0xAE30, 0xC874, 0x0020, 0x0046, 0x0069, 0x0072, 0x0065, 0x0062, 0x0061, 0x0073, 0x0065,
     0x0020, 0xC571, 0x0020, 0xAD6C, 0xC131, 0xC744, 0x0020, 0xCD08, 0xAE30, 0xD654, 0xD588,
     0xC2B5, 0xB2C8, 0xB2E4, 0x002E]"

definition MSG_INIT_DONE :: jsstring where \<comment> \<open>Firebase initialisation and service worker set-up are complete\<close>
  "MSG_INIT_DONE =
    [0x0046, 0x0069, 0x0072, 0x0065, 0x0062, 0x0061, 0x0073, 0x0065, 0x0020, 0xCD08, 0xAE30,
     0xD654, 0x0020, 0xBC0F, 0x0020, 0xC11C, 0xBE44, 0xC2A4, 0x0020, 0xC6CC, 0xCEE4, 0x0020,
     0xAD6C, 0xC131, 0xC774, 0x0020, 0xC644, 0xB8CC, 0xB418, 0xC5C8, 0xC2B5, 0xB2C8, 0xB2E4,
     0x002E]"

definition MSG_INIT_FAILED :: jsstring where \<comment> \<open>Firebase initialisation failed\<close>
  "MSG_INIT_FAILED =
    [0x0046, 0x0069, 0x0072, 0x0065, 0x0062, 0x0061, 0x0073, 0x0065, 0x0020, 0xCD08, 0xAE30,
     0xD654, 0xC5D0, 0x0020, 0xC2E4, 0xD328, 0xD588, 0xC2B5, 0xB2C8, 0xB2E4, 0x002E]"

definition MSG_NOT_INITIALIZED :: jsstring where \<comment> \<open>Firebase messaging is not initialised\<close>
  "MSG_NOT_INITIALIZED =
    [0x0046, 0x0069, 0x0072, 0x0065, 0x0062, 0x0061, 0x0073, 0x0065, 0x0020, 0xBA54, 0xC2DC,
     0xC9D5, 0xC774, 0x0020, 0xCD08, 0xAE30, 0xD654, 0xB418, 0xC9C0, 0x0020, 0xC54A, 0xC558,
     0xC2B5, 0xB2C8, 0xB2E4, 0x002E, 0x0020, 0xBA3C, 0xC800, 0x0020, 0xCD08, 0xAE30, 0xD654,
     0xB97C, 0x0020, 0xC9C4, 0xD589, 0xD574, 0xC8FC, 0xC138, 0xC694, 0x002E]"

definition MSG_VAPID_REQUIRED :: jsstring where \<comment> \<open>enter the VAPID key\<close>
  "MSG_VAPID_REQUIRED =
    [0x0056, 0x0041, 0x0050, 0x0049, 0x0044, 0x0020, 0xD0A4, 0xB97C, 0x0020, 0xC785, 0xB825,
     0xD574, 0xC8FC, 0xC138, 0xC694, 0x002E]"

definition MSG_NOTIFICATION_UNSUPPORTED :: jsstring where \<comment> \<open>this browser does not support the Notification API\<close>
  "MSG_NOTIFICATION_UNSUPPORTED =
    [0xC774, 0x0020, 0xBE0C, 0xB77C, 0xC6B0, 0xC800, 0xC5D0, 0xC11C, 0xB294, 0x0020, 0xC54C,
     0xB9BC, 0x0020, 0x0041, 0x0050, 0x0049, 0xB97C, 0x0020, 0xC9C0, 0xC6D0, 0xD558, 0xC9C0,
     0x0020, 0xC54A, 0xC2B5, 0xB2C8, 0xB2E4, 0x002E]"

definition MSG_PERMISSION_DENIED :: jsstring where \<comment> \<open>no token without the notification permission\<close>
  "MSG_PERMISSION_DENIED =
    [0xC54C, 0xB9BC, 0x0020, 0xAD8C, 0xD55C, 0xC744, 0x0020, 0xD5C8, 0xC6A9, 0xD558, 0xC9C0,
     0x0020, 0xC54A, 0xC544, 0x0020, 0xD1A0, 0xD070, 0xC744, 0x0020, 0xBC1C, 0xAE09, 0xD560,
     0x0020, 0xC218, 0x0020, 0xC5C6, 0xC2B5, 0xB2C8, 0xB2E4, 0x002E]"

definition MSG_TOKEN_FAILED :: jsstring where \<comment> \<open>issuing the token failed\<close>
  "MSG_TOKEN_FAILED =
    [0xD1A0, 0xD070, 0x0020, 0xBC1C, 0xAE09, 0xC5D0, 0x0020, 0xC2E4, 0xD328, 0xD588, 0xC2B5,
     0xB2C8, 0xB2E4, 0x002E]"

definition MSG_TOKEN_ISSUED :: jsstring where \<comment> \<open>the FCM registration token was issued\<close>
  "MSG_TOKEN_ISSUED =
    [0x0046, 0x0043, 0x004D, 0x0020, 0xB4F1, 0xB85D, 0x0020, 0xD1A0, 0xD070, 0xC744, 0x0020,
     0xBC1C, 0xAE09, 0xD588, 0xC2B5, 0xB2C8, 0xB2E4, 0x002E]"

definition MSG_TOKEN_ERROR :: jsstring where \<comment> \<open>an error occurred while issuing the token\<close>
  "MSG_TOKEN_ERROR =
    [0xD1A0, 0xD070, 0x0020, 0xBC1C, 0xAE09, 0x0020, 0xC911, 0x0020, 0xC624, 0xB958, 0xAC00,
     0x0020, 0xBC1C, 0xC0DD, 0xD588, 0xC2B5, 0xB2C8, 0xB2E4, 0x002E]"

definition MSG_SERVER_KEY_REQUIRED :: jsstring where \<comment> \<open>enter the server key\<close>
  "MSG_SERVER_KEY_REQUIRED =
    [0xC11C, 0xBC84, 0x0020, 0xD0A4, 0x0028, 0x006C, 0x0065, 0x0067, 0x0061, 0x0063, 0x0079,
     0x0020, 0x006B, 0x0065, 0x0079, 0x0029, 0xB97C, 0x0020, 0xC785, 0xB825, 0xD574, 0xC8FC,
     0xC138, 0xC694, 0x002E]"

definition MSG_TARGET_TOKEN_REQUIRED :: jsstring where \<comment> \<open>enter the target token\<close>
  "MSG_TARGET_TOKEN_REQUIRED =
    [0xC804, 0xC1A1, 0xD560, 0x0020, 0xB300, 0xC0C1, 0x0020, 0xD1A0, 0xD070, 0xC744, 0x0020,
     0xC785, 0xB825, 0xD574, 0xC8FC, 0xC138, 0xC694, 0x002E]"

definition MSG_DATA_INVALID :: jsstring where \<comment> \<open>the data is not well-formed JSON\<close>
  "MSG_DATA_INVALID =
    [0xB370, 0xC774, 0xD130, 0x0028, 0x004A, 0x0053, 0x004F, 0x004E, 0x0029, 0x0020, 0xD615,
     0xC2DD, 0xC774, 0x0020, 0xC62C, 0xBC14, 0xB974, 0xC9C0, 0x0020, 0xC54A, 0xC2B5, 0xB2C8,
     0xB2E4, 0x002E]"

definition MSG_SEND_DONE :: jsstring where \<comment> \<open>the push request was sent\<close>
  "MSG_SEND_DONE =
    [0xD478, 0xC2DC, 0x0020, 0xBA54, 0xC2DC, 0xC9C0, 0x0020, 0xC804, 0xC1A1, 0x0020, 0xC694,
     0xCCAD, 0xC744, 0x0020, 0xC644, 0xB8CC, 0xD588, 0xC2B5, 0xB2C8, 0xB2E4, 0x002E]"

definition MSG_SEND_ERROR :: jsstring where \<comment> \<open>an error occurred while sending the push request (possibly CORS)\<close>
  "MSG_SEND_ERROR =
    [0xD478, 0xC2DC, 0x0020, 0xC804, 0xC1A1, 0x0020, 0xC694, 0xCCAD, 0x0020, 0xC911, 0x0020,
     0xC624, 0xB958, 0xAC00, 0x0020, 0xBC1C, 0xC0DD, 0xD588, 0xC2B5, 0xB2C8, 0xB2E4, 0x002E,
     0x0020, 0xBE0C, 0xB77C, 0xC6B0, 0xC800, 0xC5D0, 0xC11C, 0x0020, 0x0043, 0x004F, 0x0052,
     0x0053, 0xB85C, 0x0020, 0xC778, 0xD574, 0x0020, 0xC2E4, 0xD328, 0xD560, 0x0020, 0xC218,
     0x0020, 0xC788, 0xC73C, 0xBA70, 0x002C, 0x0020, 0xC774, 0x0020, 0xACBD, 0xC6B0, 0x0020,
     0xC11C, 0xBC84, 0x0020, 0xC0AC, 0xC774, 0xB4DC, 0x0020, 0xD504, 0xB85D, 0xC2DC, 0xB97C,
     0x0020, 0xC774, 0xC6A9, 0xD574, 0xC57C, 0x0020, 0xD569, 0xB2C8, 0xB2E4, 0x002E]"

definition MSG_UNKNOWN_ERROR :: jsstring where \<comment> \<open>an error occurred\<close>
  "MSG_UNKNOWN_ERROR =
    [0xC624, 0xB958, 0xAC00, 0x0020, 0xBC1C, 0xC0DD, 0xD588, 0xC2B5, 0xB2C8, 0xB2E4, 0x002E]"

definition SEND_FAILED_PREFIX :: jsstring where \<comment> \<open>FCM send failed, before the status code\<close>
  "SEND_FAILED_PREFIX =
    [0x0046, 0x0043, 0x004D, 0x0020, 0xC804, 0xC1A1, 0x0020, 0xC2E4, 0xD328, 0x0020, 0x0028]"

definition PUSH_DEFAULT_TITLE :: jsstring where \<comment> \<open>web push test\<close>
  "PUSH_DEFAULT_TITLE =
    [0xC6F9, 0x0020, 0xD478, 0xC2DC, 0x0020, 0xD14C, 0xC2A4, 0xD2B8]"

definition PUSH_DEFAULT_BODY :: jsstring where \<comment> \<open>a notification sent by FCM\<close>
  "PUSH_DEFAULT_BODY =
    [0x0046, 0x0043, 0x004D, 0xC5D0, 0xC11C, 0x0020, 0xC804, 0xC1A1, 0xD55C, 0x0020, 0xC54C,
     0xB9BC, 0xC785, 0xB2C8, 0xB2E4, 0x002E]"


text \<open>
  A thrown value, as far as the handlers look at it: \<open>error?.message\<close>, which is \<open>None\<close>
  when the value is \<open>null\<close> or \<open>undefined\<close> or has no message.
\<close>

datatype js_error = JsError "jsstring option"

text \<open>\<open>error?.message ?? d\<close>\<close>

fun error_message_or :: "js_error \<Rightarrow> jsstring \<Rightarrow> jsstring" where
  "error_message_or (JsError None) d = d"
| "error_message_or (JsError (Some m)) d = m"

subsection \<open>Saved settings\<close>

text \<open>
  \<open>localStorage\<close> is a map from keys to values; the exceptions of the Storage interface
  (a full or disabled storage) are not modelled.
\<close>

type_synonym storage = "jsstring \<rightharpoonup> jsstring"

text \<open>A configuration as the object it is, its properties in the order of \<open>defaultConfig\<close>.\<close>

definition config_json :: "FirebaseConfig \<Rightarrow> json" where
  "config_json c =
     JObj [(js ''apiKey'', JStr (apiKey c)), (js ''authDomain'', JStr (authDomain c)),
           (js ''projectId'', JStr (projectId c)), (js ''storageBucket'', JStr (storageBucket c)),
           (js ''messagingSenderId'', JStr (messagingSenderId c)), (js ''appId'', JStr (appId c))]"

text \<open>The object \<open>{ config, vapidKey, serverKey }\<close>.\<close>

definition settings_json :: "FirebaseConfig \<Rightarrow> jsstring \<Rightarrow> jsstring \<Rightarrow> json" where
  "settings_json c v k =
     JObj [(js ''config'', config_json c), (js ''vapidKey'', JStr v), (js ''serverKey'', JStr k)]"

text \<open>
  \<open>loadSavedSettings\<close> returns the parsed value as it is, without looking at its shape;
  \<open>JNull\<close> is the \<open>null\<close> it returns when nothing is stored, when the stored text is empty
  and when the text does not parse.
\<close>

definition loadSavedSettings :: "storage \<Rightarrow> json" where
  "loadSavedSettings ls =
     (case ls LOCAL_STORAGE_KEY of
        None \<Rightarrow> JNull
      | Some raw \<Rightarrow>
          if raw = [] then JNull
          else (case JSON_parse raw of None \<Rightarrow> JNull | Some v \<Rightarrow> v))"

definition saveSettings :: "FirebaseConfig \<Rightarrow> jsstring \<Rightarrow> jsstring \<Rightarrow> storage \<Rightarrow> storage" where
  "saveSettings c v k ls = ls(LOCAL_STORAGE_KEY \<mapsto> JSON_stringify (settings_json c v k))"

text \<open>
  \<open>parseDataPayload\<close>: \<open>Inr None\<close> is \<open>undefined\<close>, \<open>Inl m\<close> the Error it throws, by its
  message.
\<close>

definition parseDataPayload :: "jsstring \<Rightarrow> jsstring + json option" where
  "parseDataPayload d =
     (if trim d = [] then Inr None
      else case JSON_parse d of None \<Rightarrow> Inl MSG_DATA_INVALID | Some v \<Rightarrow> Inr (Some v))"

subsection \<open>The browser and the messaging library\<close>

type_synonym FirebaseApp = nat
type_synonym Messaging = nat
type_synonym ServiceWorker = nat

record ServiceWorkerRegistration =
  installing :: "ServiceWorker option"
  waiting :: "ServiceWorker option"
  active :: "ServiceWorker option"

datatype worker_state = Parsed | Installing | Installed | Activating | Activated | Redundant

record Response =
  resp_ok :: bool
  resp_status :: nat
  resp_text :: "js_error + jsstring"

record Request =
  req_url :: jsstring
  req_method :: jsstring
  req_headers :: "(jsstring \<times> jsstring) list"
  req_body :: jsstring

text \<open>
  What the environment answers to each call a handler makes during one run: \<open>Inl\<close> is an
  exception or a rejected promise. \<open>statechange_events\<close> are the \<open>statechange\<close> events that
  the worker being installed fires once the page listens, each with the state of the
  worker and the registration as it is at that moment. \<open>dateNow k\<close> is the clock reading
  taken for the entry added to a log of \<open>k\<close> entries. Every promise of the browser and
  of the library is taken to settle.
\<close>

record env =
  isSupported_result :: "js_error + bool"
  getApps_result :: "FirebaseApp list"
  deleteApp_result :: "FirebaseApp \<Rightarrow> js_error option"
  initializeApp_result :: "js_error + FirebaseApp"
  getMessaging_result :: "js_error + Messaging"
  serviceWorker_in_navigator :: bool
  getRegistration_result :: "js_error + ServiceWorkerRegistration option"
  register_result :: "js_error + ServiceWorkerRegistration"
  statechange_events :: "(worker_state \<times> ServiceWorkerRegistration) list"
  Notification_defined :: bool
  requestPermission_result :: "js_error + jsstring"
  getToken_result :: "js_error + jsstring"
  fetch_result :: "js_error + Response"
  vapidKeyInput_mounted :: bool
  dateNow :: "nat \<Rightarrow> int"

subsection \<open>The state of the component and what a handler does\<close>

text \<open>
  The state of the component, one field for each \<open>useState\<close> that the handlers below
  read or write; the list of the messages received in the foreground is left out.
\<close>

record app_state =
  firebaseConfig :: FirebaseConfig
  vapidKey :: jsstring
  serverKey :: jsstring
  firebaseApp :: "FirebaseApp option"
  messaging :: "Messaging option"
  isInitializing :: bool
  token :: jsstring
  statusMessages :: "StatusMessage list"
  pushPayload :: PushMessagePayload
  targetToken :: jsstring
  sending :: bool
  sendResult :: jsstring

definition initialPushPayload :: PushMessagePayload where
  "initialPushPayload =
     \<lparr>pm_title = PUSH_DEFAULT_TITLE, pm_body = PUSH_DEFAULT_BODY, pm_imageUrl = [],
      pm_data = js ''{\"foo\":\"bar\"}''\<rparr>"

definition initial_state :: app_state where
  "initial_state =
     \<lparr>firebaseConfig = defaultConfig, vapidKey = [], serverKey = [], firebaseApp = None,
      messaging = None, isInitializing = False, token = [], statusMessages = [],
      pushPayload = initialPushPayload, targetToken = [], sending = False, sendResult = []\<rparr>"

text \<open>
  A handler runs on the state of the render that created it and does, in order, calls of
  the browser and of the library and updates of the state. The calls and updates are
  recorded as they happen.
\<close>

datatype action =
    SetIsInitializing bool
  | SetSendResult jsstring
  | SetSending bool
  | SetToken jsstring
  | SetTargetToken jsstring
  | SetFirebaseApp "FirebaseApp option"
  | SetMessaging "Messaging option"
  | AppendStatus status_type jsstring
  | ConsoleError
  | FocusVapidKeyInput
  | CallIsSupported
  | LocalStorageSetItem jsstring jsstring
  | CallGetApps
  | CallDeleteApp FirebaseApp
  | CallInitializeApp FirebaseConfig
  | CallGetMessaging FirebaseApp
  | CallGetRegistration jsstring
  | CallRegister jsstring
  | AddStatechangeListener ServiceWorker
  | PostMessage ServiceWorker json
  | CallRequestPermission
  | CallGetToken Messaging jsstring ServiceWorkerRegistration
  | CallFetch Request
  | CallResponseText

text \<open>
  How an asynchronous function ends: it returns, it throws, or its promise never settles.
\<close>

datatype 'a outcome = Returned 'a | Threw js_error | Pending

type_synonym 'a run = "action list \<times> 'a outcome"

definition call :: "action \<Rightarrow> js_error + 'a \<Rightarrow> 'a run" where
  "call a r = ([a], case r of Inl e \<Rightarrow> Threw e | Inr x \<Rightarrow> Returned x)"

definition do_all :: "action list \<Rightarrow> unit run" where
  "do_all as = (as, Returned ())"

text \<open>\<open>andThen m f\<close>: the statements of \<open>f\<close> follow those of \<open>m\<close> when \<open>m\<close> returns.\<close>

definition andThen :: "'a run \<Rightarrow> ('a \<Rightarrow> 'b run) \<Rightarrow> 'b run" where
  "andThen m f =
     (case m of
        (as, Returned x) \<Rightarrow> (case f x of (bs, r) \<Rightarrow> (as @ bs, r))
      | (as, Threw e) \<Rightarrow> (as, Threw e)
      | (as, Pending) \<Rightarrow> (as, Pending))"

text \<open>
  \<open>try { m } catch (e) { handler e } finally { final }\<close>, for handlers and final blocks
  that neither throw nor wait. A \<open>return\<close> inside the \<open>try\<close> block ends \<open>m\<close>.
\<close>

definition try_catch_finally :: "'a run \<Rightarrow> (js_error \<Rightarrow> action list) \<Rightarrow> action list \<Rightarrow> unit run" where
  "try_catch_finally m handler final =
     (case m of
        (as, Returned x) \<Rightarrow> (as @ final, Returned ())
      | (as, Threw e) \<Rightarrow> (as @ handler e @ final, Returned ())
      | (as, Pending) \<Rightarrow> (as, Pending))"

text \<open>
  React applies the updates in the order of the calls. The updater of \<open>appendStatus\<close>
  reads the clock and puts the new entry in front.
\<close>

fun apply_action :: "env \<Rightarrow> app_state \<Rightarrow> action \<Rightarrow> app_state" where
  "apply_action e st (SetIsInitializing b) = st\<lparr>isInitializing := b\<rparr>"
| "apply_action e st (SetSendResult s) = st\<lparr>sendResult := s\<rparr>"
| "apply_action e st (SetSending b) = st\<lparr>sending := b\<rparr>"
| "apply_action e st (SetToken s) = st\<lparr>token := s\<rparr>"
| "apply_action e st (SetTargetToken s) = st\<lparr>targetToken := s\<rparr>"
| "apply_action e st (SetFirebaseApp a) = st\<lparr>firebaseApp := a\<rparr>"
| "apply_action e st (SetMessaging m) = st\<lparr>messaging := m\<rparr>"
| "apply_action e st (AppendStatus ty txt) =
     st\<lparr>statusMessages :=
          \<lparr>sm_type = ty, sm_text = txt, sm_timestamp = dateNow e (length (statusMessages st))\<rparr>
          # statusMessages st\<rparr>"
| "apply_action e st _ = st"

definition state_after :: "env \<Rightarrow> app_state \<Rightarrow> action list \<Rightarrow> app_state" where
  "state_after e st as = foldl (apply_action e) st as"

subsection \<open>\<open>ensureServiceWorkerRegistration\<close>\<close>

definition SW_SCRIPT :: jsstring where
  "SW_SCRIPT = js ''/firebase-messaging-sw.js''"

definition INIT_FIREBASE_message :: "FirebaseConfig \<Rightarrow> json" where
  "INIT_FIREBASE_message c =
     JObj [(js ''type'', JStr (js ''INIT_FIREBASE'')), (js ''config'', config_json c)]"

text \<open>\<open>a || b\<close> for two workers, each an object or \<open>null\<close>.\<close>

fun or_else :: "'a option \<Rightarrow> 'a option \<Rightarrow> 'a option" where
  "or_else (Some a) b = Some a"
| "or_else None b = b"

definition post_init :: "FirebaseConfig \<Rightarrow> ServiceWorkerRegistration \<Rightarrow> action list" where
  "post_init c r =
     (case or_else (active r) (waiting r) of
        None \<Rightarrow> []
      | Some worker \<Rightarrow> [PostMessage worker (INIT_FIREBASE_message c)])"

text \<open>
  The promise \<open>registrationReady\<close>. The listener resolves it at the first \<open>statechange\<close>
  event that finds the worker \<open>activated\<close>; without such an event it stays pending.
\<close>

definition registrationReady :: "env \<Rightarrow> ServiceWorkerRegistration \<Rightarrow> ServiceWorkerRegistration run" where
  "registrationReady e registration =
     (if active registration \<noteq> None then ([], Returned registration)
      else case or_else (installing registration) (waiting registration) of
        None \<Rightarrow> ([], Returned registration)
      | Some serviceWorker \<Rightarrow>
          ([AddStatechangeListener serviceWorker],
           case find (\<lambda>ev. fst ev = Activated) (statechange_events e) of
             None \<Rightarrow> Pending
           | Some ev \<Rightarrow> Returned (snd ev)))"

definition ensureServiceWorkerRegistration :: "env \<Rightarrow> FirebaseConfig \<Rightarrow> ServiceWorkerRegistration run" where
  "ensureServiceWorkerRegistration e c =
     (if \<not> serviceWorker_in_navigator e then ([], Threw (JsError (Some MSG_NO_SERVICE_WORKER)))
      else
        andThen (call (CallGetRegistration SW_SCRIPT) (getRegistration_result e))
          (\<lambda>existingRegistration.
             case existingRegistration of
               Some existing \<Rightarrow> (post_init c existing, Returned existing)
             | None \<Rightarrow>
                 andThen (call (CallRegister SW_SCRIPT) (register_result e))
                   (\<lambda>registration.
                      andThen (registrationReady e registration)
                        (\<lambda>ready. (post_init c ready, Returned ready)))))"

subsection \<open>\<open>handleInitializeFirebase\<close>\<close>

text \<open>
  \<open>await Promise.all(apps.map((app) => deleteApp(app)))\<close>: every app is deleted; the
  rejection of one, the first in the list here, is thrown.
\<close>

definition delete_apps :: "env \<Rightarrow> unit run" where
  "delete_apps e =
     (let apps = getApps_result e
      in if length apps > 0 then
           (case List.map_filter (deleteApp_result e) apps of
              [] \<Rightarrow> (map CallDeleteApp apps @ [AppendStatus Info MSG_APPS_RESET], Returned ())
            | err # _ \<Rightarrow> (map CallDeleteApp apps, Threw err))
         else ([], Returned ()))"

definition handleInitializeFirebase :: "env \<Rightarrow> app_state \<Rightarrow> unit run" where
  "handleInitializeFirebase e st =
     andThen (do_all [SetIsInitializing True, SetSendResult []])
       (\<lambda>_. try_catch_finally
          (andThen (call CallIsSupported (isSupported_result e))
             (\<lambda>supported.
                if \<not> supported then do_all [AppendStatus Error MSG_FCM_UNSUPPORTED]
                else
                  andThen (do_all
                      [LocalStorageSetItem LOCAL_STORAGE_KEY
                         (JSON_stringify (settings_json (firebaseConfig st) (vapidKey st) (serverKey st))),
                       CallGetApps])
                    (\<lambda>_. andThen (delete_apps e)
                    (\<lambda>_. andThen (call (CallInitializeApp (firebaseConfig st)) (initializeApp_result e))
                    (\<lambda>app. andThen (call (CallGetMessaging app) (getMessaging_result e))
                    (\<lambda>messagingInstance'. andThen (ensureServiceWorkerRegistration e (firebaseConfig st))
                    (\<lambda>_. do_all
                       [SetFirebaseApp (Some app), SetMessaging (Some messagingInstance'),
                        AppendStatus Success MSG_INIT_DONE])))))))
          (\<lambda>err. [ConsoleError, AppendStatus Error (error_message_or err MSG_INIT_FAILED)])
          [SetIsInitializing False])"

subsection \<open>\<open>handleRequestPermissionAndToken\<close>\<close>

definition handleRequestPermissionAndToken :: "env \<Rightarrow> app_state \<Rightarrow> unit run" where
  "handleRequestPermissionAndToken e st =
     (case messaging st of
        None \<Rightarrow> do_all [AppendStatus Error MSG_NOT_INITIALIZED]
      | Some m \<Rightarrow>
          if trim (vapidKey st) = [] then
            do_all (AppendStatus Error MSG_VAPID_REQUIRED #
                    (if vapidKeyInput_mounted e then [FocusVapidKeyInput] else []))
          else
            try_catch_finally
              (if \<not> Notification_defined e then
                 do_all [AppendStatus Error MSG_NOTIFICATION_UNSUPPORTED]
               else
                 andThen (call CallRequestPermission (requestPermission_result e))
                   (\<lambda>permission.
                      if permission \<noteq> js ''granted'' then
                        do_all [AppendStatus Error MSG_PERMISSION_DENIED]
                      else
                        andThen (ensureServiceWorkerRegistration e (firebaseConfig st))
                          (\<lambda>registration.
                             andThen (call (CallGetToken m (trim (vapidKey st)) registration)
                                        (getToken_result e))
                               (\<lambda>currentToken.
                                  if currentToken = [] then
                                    do_all [AppendStatus Error MSG_TOKEN_FAILED]
                                  else
                                    do_all [SetToken currentToken, SetTargetToken currentToken,
                                            AppendStatus Success MSG_TOKEN_ISSUED]))))
              (\<lambda>err. [ConsoleError, AppendStatus Error (error_message_or err MSG_TOKEN_ERROR)])
              [])"

subsection \<open>\<open>handleSendPush\<close>\<close>

text \<open>
  The object \<open>body\<close>. \<open>image\<close> is \<open>undefined\<close> for an empty URL, and \<open>JSON.stringify\<close>
  leaves a property out whose value is \<open>undefined\<close>: the model leaves it out of the
  object.
\<close>

definition push_body :: "app_state \<Rightarrow> json option \<Rightarrow> json" where
  "push_body st dataPayload =
     JObj ([(js ''to'', JStr (trim (targetToken st))),
            (js ''notification'',
               JObj ([(js ''title'', JStr (pm_title (pushPayload st))),
                      (js ''body'', JStr (pm_body (pushPayload st)))] @
                     (if pm_imageUrl (pushPayload st) = [] then []
                      else [(js ''image'', JStr (pm_imageUrl (pushPayload st)))])))] @
           (case dataPayload of
              None \<Rightarrow> []
            | Some v \<Rightarrow> if truthy v then [(js ''data'', v)] else []))"

definition push_request :: "app_state \<Rightarrow> json option \<Rightarrow> Request" where
  "push_request st dataPayload =
     \<lparr>req_url = js ''https://fcm.googleapis.com/fcm/send'',
      req_method = js ''POST'',
      req_headers = [(js ''Content-Type'', js ''application/json''),
                     (js ''Authorization'', js ''key='' @ trim (serverKey st))],
      req_body = JSON_stringify (push_body st dataPayload)\<rparr>"

definition handleSendPush :: "env \<Rightarrow> app_state \<Rightarrow> unit run" where
  "handleSendPush e st =
     andThen (do_all [SetSendResult []])
       (\<lambda>_. if trim (serverKey st) = [] then do_all [AppendStatus Error MSG_SERVER_KEY_REQUIRED]
             else if trim (targetToken st) = [] then
               do_all [AppendStatus Error MSG_TARGET_TOKEN_REQUIRED]
             else
               (case parseDataPayload (pm_data (pushPayload st)) of
                  Inl msg \<Rightarrow> do_all [AppendStatus Error msg]
                | Inr dataPayload \<Rightarrow>
                    andThen (do_all [SetSending True])
                      (\<lambda>_. try_catch_finally
                         (andThen (call (CallFetch (push_request st dataPayload)) (fetch_result e))
                            (\<lambda>response. andThen (call CallResponseText (resp_text response))
                            (\<lambda>resultText.
                               if \<not> resp_ok response then
                                 ([], Threw (JsError (Some
                                    (SEND_FAILED_PREFIX @ decimal (resp_status response) @
                                     js ''): '' @ resultText))))
                               else
                                 do_all [SetSendResult resultText,
                                         AppendStatus Success MSG_SEND_DONE])))
                         (\<lambda>err. [ConsoleError, AppendStatus Error MSG_SEND_ERROR,
                                   SetSendResult (error_message_or err MSG_UNKNOWN_ERROR)])
                         [SetSending False])))"

text \<open>The three checks that \<open>handleSendPush\<close> makes before it sends.\<close>

definition send_checks_pass :: "app_state \<Rightarrow> bool" where
  "send_checks_pass st \<longleftrightarrow>
     trim (serverKey st) \<noteq> [] \<and> trim (targetToken st) \<noteq> [] \<and>
     (trim (pm_data (pushPayload st)) = [] \<or> JSON_parse (pm_data (pushPayload st)) \<noteq> None)"

subsection \<open>The page as the user drives it\<close>

text \<open>
  The inputs and buttons of the page that matter for sending. A button that the page
  disables does nothing. Each handler is run to its end before the next event; the
  effect that loads the saved settings when the page opens is left out, so that
  \<open>initial_state\<close> is the page on a first visit.
\<close>

datatype config_key = ApiKey | AuthDomain | ProjectId | StorageBucket | MessagingSenderId | AppId

fun handleConfigChange :: "config_key \<Rightarrow> jsstring \<Rightarrow> FirebaseConfig \<Rightarrow> FirebaseConfig" where
  "handleConfigChange ApiKey v prev = prev\<lparr>apiKey := v\<rparr>"
| "handleConfigChange AuthDomain v prev = prev\<lparr>authDomain := v\<rparr>"
| "handleConfigChange ProjectId v prev = prev\<lparr>projectId := v\<rparr>"
| "handleConfigChange StorageBucket v prev = prev\<lparr>storageBucket := v\<rparr>"
| "handleConfigChange MessagingSenderId v prev = prev\<lparr>messagingSenderId := v\<rparr>"
| "handleConfigChange AppId v prev = prev\<lparr>appId := v\<rparr>"

definition configIsComplete :: "FirebaseConfig \<Rightarrow> bool" where
  "configIsComplete c \<longleftrightarrow>
     list_all (\<lambda>v. length (trim v) > 0)
       [apiKey c, authDomain c, projectId c, storageBucket c, messagingSenderId c, appId c]"

datatype ui_event =
    ChangeConfig config_key jsstring
  | ChangeVapidKey jsstring
  | ChangeServerKey jsstring
  | ChangeTargetToken jsstring
  | ChangePushPayload PushMessagePayload
  | ClickInitialize
  | ClickRequestToken
  | ClickSendPush

definition run_handler :: "env \<Rightarrow> (env \<Rightarrow> app_state \<Rightarrow> unit run) \<Rightarrow> app_state \<times> action list \<Rightarrow> app_state \<times> action list" where
  "run_handler e h s =
     (case s of (st, done) \<Rightarrow> (state_after e st (fst (h e st)), done @ fst (h e st)))"

fun ui_step :: "env \<Rightarrow> app_state \<times> action list \<Rightarrow> ui_event \<Rightarrow> app_state \<times> action list" where
  "ui_step e (st, done) (ChangeConfig k v) =
     (st\<lparr>firebaseConfig := handleConfigChange k v (firebaseConfig st)\<rparr>, done)"
| "ui_step e (st, done) (ChangeVapidKey v) = (st\<lparr>vapidKey := v\<rparr>, done)"
| "ui_step e (st, done) (ChangeServerKey v) = (st\<lparr>serverKey := v\<rparr>, done)"
| "ui_step e (st, done) (ChangeTargetToken v) = (st\<lparr>targetToken := v\<rparr>, done)"
| "ui_step e (st, done) (ChangePushPayload p) = (st\<lparr>pushPayload := p\<rparr>, done)"
| "ui_step e (st, done) ClickInitialize =
     (if \<not> configIsComplete (firebaseConfig st) \<or> isInitializing st then (st, done)
      else run_handler e handleInitializeFirebase (st, done))"
| "ui_step e (st, done) ClickRequestToken = run_handler e handleRequestPermissionAndToken (st, done)"
| "ui_step e (st, done) ClickSendPush =
     (if sending st then (st, done) else run_handler e handleSendPush (st, done))"

definition session :: "env \<Rightarrow> ui_event list \<Rightarrow> app_state \<times> action list" where
  "session e evs = foldl (ui_step e) (initial_state, []) evs"

subsection \<open>Kinds of calls and their order\<close>

fun is_initializeApp :: "action \<Rightarrow> bool" where
  "is_initializeApp (CallInitializeApp c) = True"
| "is_initializeApp _ = False"

fun is_getMessaging :: "action \<Rightarrow> bool" where
  "is_getMessaging (CallGetMessaging a) = True"
| "is_getMessaging _ = False"

fun is_registration :: "action \<Rightarrow> bool" where
  "is_registration (CallGetRegistration s) = True"
| "is_registration (CallRegister s) = True"
| "is_registration (AddStatechangeListener w) = True"
| "is_registration (PostMessage w m) = True"
| "is_registration _ = False"

fun is_requestPermission :: "action \<Rightarrow> bool" where
  "is_requestPermission CallRequestPermission = True"
| "is_requestPermission _ = False"

fun is_getToken :: "action \<Rightarrow> bool" where
  "is_getToken (CallGetToken m v r) = True"
| "is_getToken _ = False"

fun is_fetch :: "action \<Rightarrow> bool" where
  "is_fetch (CallFetch r) = True"
| "is_fetch _ = False"

definition is_lifecycle_call :: "action \<Rightarrow> bool" where
  "is_lifecycle_call a \<longleftrightarrow>
     is_initializeApp a \<or> is_getMessaging a \<or> is_registration a \<or> is_requestPermission a \<or>
     is_getToken a"

text \<open>\<open>precedes P Q as\<close>: in \<open>as\<close>, no \<open>Q\<close> comes before the first \<open>P\<close>.\<close>

fun precedes :: "('a \<Rightarrow> bool) \<Rightarrow> ('a \<Rightarrow> bool) \<Rightarrow> 'a list \<Rightarrow> bool" where
  "precedes P Q [] = True"
| "precedes P Q (x # xs) = (if Q x then False else if P x then True else precedes P Q xs)"

subsection \<open>An environment for the examples\<close>

text \<open>
  A browser that supports everything, with no app, no registration and no permission
  yet; the examples change it where they need another answer.
\<close>

definition example_env :: env where
  "example_env =
     \<lparr>isSupported_result = Inr True,
      getApps_result = [],
      deleteApp_result = (\<lambda>a. None),
      initializeApp_result = Inr 1,
      getMessaging_result = Inr 1,
      serviceWorker_in_navigator = True,
      getRegistration_result = Inr None,
      register_result = Inr \<lparr>installing = Some 1, waiting = None, active = None\<rparr>,
      statechange_events =
        [(Installed, \<lparr>installing = None, waiting = Some 1, active = None\<rparr>),
         (Activating, \<lparr>installing = None, waiting = None, active = Some 1\<rparr>),
         (Activated, \<lparr>installing = None, waiting = None, active = Some 1\<rparr>)],
      Notification_defined = True,
      requestPermission_result = Inr (js ''granted''),
      getToken_result = Inr (js ''token-1''),
      fetch_result = Inr \<lparr>resp_ok = True, resp_status = 200, resp_text = Inr (js ''{}'')\<rparr>,
      vapidKeyInput_mounted = True,
      dateNow = (\<lambda>k. 1000 + int k)\<rparr>"

section \<open>Properties of strings and of JSON\<close>

lemma unat_of_char: "unat (of_char c :: char16) = of_char c"
proof -
  have "(of_char c :: nat) < 65536"
    using nat_of_char_less_256 [of c] by linarith
  then have "(of_char c :: nat) < 2 ^ LENGTH(16)" by simp
  then have "unat (of_nat (of_char c) :: char16) = of_char c"
    by (simp add: unat_of_nat)
  then show ?thesis by (simp add: of_nat_of_char)
qed

lemma js_inject [simp]: "js a = js b \<longleftrightarrow> a = b"
proof
  assume "js a = js b"
  then have "map unat (js a) = map unat (js b)" by simp
  then have "map (of_char :: char \<Rightarrow> nat) a = map of_char b"
    by (simp add: js_def unat_of_char comp_def)
  then show "a = b"
    by (simp add: inj_map_eq_map inj_of_char)
qed simp

lemma js_eq_Nil [simp]: "js s = [] \<longleftrightarrow> s = []" "[] = js s \<longleftrightarrow> s = []"
  by (auto simp: js_def)

lemma js_append: "js a @ js b = js (a @ b)"
  by (simp add: js_def)

subsection \<open>A quoted string is read back\<close>

lemma unat_hex_digit: "d < 16 \<Longrightarrow> unat (hex_digit d) = (if d < 10 then 48 + d else 87 + d)"
  by (simp add: hex_digit_def unat_of_nat del: of_nat_add)

lemma hex_value_hex_digit: "d < 16 \<Longrightarrow> hex_value (hex_digit d) = Some d"
  by (simp add: hex_value_def word_le_nat_alt unat_hex_digit)

lemma hex_digits_value:
  fixes n :: nat
  assumes "n < 65536"
  shows "((n div 4096 mod 16 * 16 + n div 256 mod 16) * 16 + n div 16 mod 16) * 16 + n mod 16 = n"
proof -
  have a: "n div 256 = n div 16 div 16" and b: "n div 4096 = n div 16 div 16 div 16"
    by (simp_all add: div_mult2_eq [symmetric])
  have c: "n div 16 div 16 div 16 < 16"
    using assms by (simp add: div_mult2_eq [symmetric])
  show ?thesis
    unfolding a b using c
    by (simp add: algebra_simps)
qed

lemma hex4_unicode_escape:
  "hex4 (hex_digit (unat c div 4096 mod 16)) (hex_digit (unat c div 256 mod 16))
        (hex_digit (unat c div 16 mod 16)) (hex_digit (unat c mod 16)) = Some c"
proof -
  define x where "x = ((unat c div 4096 mod 16 * 16 + unat c div 256 mod 16) * 16 +
      unat c div 16 mod 16) * 16 + unat c mod 16"
  have "unat c < 2 ^ LENGTH(16)" by (rule unsigned_less)
  then have "unat c < 65536" by simp
  then have "x = unat c"
    unfolding x_def by (rule hex_digits_value)
  then have "(of_nat x :: char16) = c"
    by simp
  then show ?thesis
    unfolding x_def
    by (simp only: hex4_def hex_value_hex_digit mod_less_divisor zero_less_numeral
        option.case prod.case)
qed

lemma lex_string_plain_unit:
  "c \<noteq> 0x22 \<Longrightarrow> c \<noteq> 0x5C \<Longrightarrow> \<not> c < 0x20 \<Longrightarrow> lex_string (c # xs) = cons_fst c (lex_string xs)"
  by (subst lex_string.simps) simp

lemma surrogate_plain:
  "is_high_surrogate c \<or> is_low_surrogate c \<Longrightarrow> c \<noteq> 0x22 \<and> c \<noteq> 0x5C \<and> \<not> c < 0x20"
  by (auto simp: is_high_surrogate_def is_low_surrogate_def word_le_nat_alt word_less_nat_alt)

lemma lex_string_escapes:
  "lex_string (0x5C # 0x62 # xs) = cons_fst 0x08 (lex_string xs)"
  "lex_string (0x5C # 0x74 # xs) = cons_fst 0x09 (lex_string xs)"
  "lex_string (0x5C # 0x6E # xs) = cons_fst 0x0A (lex_string xs)"
  "lex_string (0x5C # 0x66 # xs) = cons_fst 0x0C (lex_string xs)"
  "lex_string (0x5C # 0x72 # xs) = cons_fst 0x0D (lex_string xs)"
  "lex_string (0x5C # 0x22 # xs) = cons_fst 0x22 (lex_string xs)"
  "lex_string (0x5C # 0x5C # xs) = cons_fst 0x5C (lex_string xs)"
  by (subst lex_string.simps, simp add: unescape_def)+

lemma lex_string_unicode_escape:
  "lex_string (unicode_escape c @ xs) = cons_fst c (lex_string xs)"
  by (subst lex_string.simps) (simp add: unicode_escape_def hex4_unicode_escape)

lemma lex_string_quote_unit: "lex_string (quote_unit c @ xs) = cons_fst c (lex_string xs)"
  by (simp add: quote_unit_def lex_string_escapes lex_string_unicode_escape lex_string_plain_unit)

lemma lex_string_quote_body: "lex_string (quote_body s @ 0x22 # rest) = Some (s, rest)"
proof (induction s rule: quote_body.induct)
  case 1
  show ?case by (subst lex_string.simps) simp
next
  case (2 c)
  have "lex_string (0x22 # rest) = Some ([], rest)"
    by (subst lex_string.simps) simp
  then show ?case
    by (simp add: lex_string_quote_unit cons_fst_def)
next
  case (3 c d cs)
  show ?case
  proof (cases "is_high_surrogate c \<and> is_low_surrogate d")
    case True
    then have "lex_string (quote_body cs @ 0x22 # rest) = Some (cs, rest)"
      by (rule "3.IH"(1))
    with True surrogate_plain [of c] surrogate_plain [of d] show ?thesis
      by (simp add: lex_string_plain_unit cons_fst_def)
  next
    case False
    then have "lex_string (quote_body (d # cs) @ 0x22 # rest) = Some (d # cs, rest)"
      by (rule "3.IH"(2))
    with False show ?thesis
      by (auto simp: lex_string_quote_unit cons_fst_def)
  qed
qed

subsection \<open>Tokens of punctuation, literals and strings\<close>

lemma prepend_prepend [simp]: "prepend a (prepend b r) = prepend (a @ b) r"
  by (cases r) (simp_all add: prepend_def)

lemma prepend_Nil [simp]: "prepend [] r = r"
  by (cases r) (simp_all add: prepend_def)

lemma map_option_Cons_prepend: "map_option ((#) t) r = prepend [t] r"
  by (cases r) (simp_all add: prepend_def)

lemma lex_punctuation:
  "lex (0x7B # xs) = prepend [TLBrace] (lex xs)"
  "lex (0x7D # xs) = prepend [TRBrace] (lex xs)"
  "lex (0x5B # xs) = prepend [TLBracket] (lex xs)"
  "lex (0x5D # xs) = prepend [TRBracket] (lex xs)"
  "lex (0x3A # xs) = prepend [TColon] (lex xs)"
  "lex (0x2C # xs) = prepend [TComma] (lex xs)"
  by (simp_all add: is_json_ws_def map_option_Cons_prepend)

lemma lex_literals:
  "lex (js ''null'' @ xs) = prepend [TNull] (lex xs)"
  "lex (js ''true'' @ xs) = prepend [TTrue] (lex xs)"
  "lex (js ''false'' @ xs) = prepend [TFalse] (lex xs)"
  by (simp_all add: js_def is_json_ws_def map_option_Cons_prepend)

lemma lex_quoted: "lex (QuoteJSONString s @ xs) = prepend [TString s] (lex xs)"
  by (simp add: QuoteJSONString_def is_json_ws_def lex_string_quote_body map_option_Cons_prepend)

declare lex.simps [simp del]

subsection \<open>The text of a number is a number literal\<close>

lemma is_digit_of_int: "0 \<le> d \<Longrightarrow> d < 10 \<Longrightarrow> is_digit (48 + of_int d)"
proof -
  assume "0 \<le> d" "d < 10"
  then have "d = 0 \<or> d = 1 \<or> d = 2 \<or> d = 3 \<or> d = 4 \<or> d = 5 \<or> d = 6 \<or> d = 7 \<or> d = 8 \<or> d = 9"
    by arith
  then show ?thesis by (auto simp: is_digit_def)
qed

lemma of_int_digit_not_zero: "1 \<le> d \<Longrightarrow> d < 10 \<Longrightarrow> (of_int d :: char16) \<noteq> 0"
proof -
  assume "1 \<le> d" "d < 10"
  then have "d = 1 \<or> d = 2 \<or> d = 3 \<or> d = 4 \<or> d = 5 \<or> d = 6 \<or> d = 7 \<or> d = 8 \<or> d = 9"
    by arith
  then show ?thesis by auto
qed

lemma digits_of_not_Nil: "digits_of n \<noteq> []"
  by (subst digits_of.simps) simp

lemma digits_of_digits: "0 \<le> n \<Longrightarrow> list_all is_digit (digits_of n)"
proof (induction n rule: digits_of.induct)
  case (1 n)
  show ?case
  proof (cases "n < 10")
    case True
    with "1.prems" show ?thesis
      by (subst digits_of.simps) (simp add: is_digit_of_int)
  next
    case False
    with "1.prems" have "list_all is_digit (digits_of (n div 10))"
      by (intro "1.IH") simp_all
    moreover have "is_digit (of_int (48 + n mod 10))"
      using is_digit_of_int [of "n mod 10"] by simp
    ultimately show ?thesis
      using False by (subst digits_of.simps) simp
  qed
qed

lemma digits_of_hd: "1 \<le> n \<Longrightarrow> hd (digits_of n) \<noteq> 0x30"
proof (induction n rule: digits_of.induct)
  case (1 n)
  show ?case
  proof (cases "n < 10")
    case True
    with "1.prems" show ?thesis
      by (subst digits_of.simps) (simp add: of_int_digit_not_zero)
  next
    case False
    with "1.prems" have "hd (digits_of (n div 10)) \<noteq> 0x30"
      by (intro "1.IH") simp_all
    then show ?thesis
      using False by (subst digits_of.simps) (simp add: digits_of_not_Nil)
  qed
qed

lemma foldl_select: "foldl (\<lambda>b c. if p c b then c else b) x xs \<in> set (x # xs)"
  by (induction xs arbitrary: x) auto

lemma digit_candidates_pos: "(s, n) \<in> set (digit_candidates v k) \<Longrightarrow> 1 \<le> s"
proof -
  assume "(s, n) \<in> set (digit_candidates v k)"
  then have "(10::int) ^ (k - 1) \<le> s"
    by (auto simp: digit_candidates_def split: if_splits)
  moreover have "(1::int) \<le> 10 ^ (k - 1)" by simp
  ultimately show ?thesis by linarith
qed

lemma shortest_digits_pos: "1 \<le> fst (shortest_digits v)"
proof (cases "List.find (\<lambda>k. digit_candidates v k \<noteq> []) [1..<18]")
  case None
  then show ?thesis by (simp add: shortest_digits_def)
next
  case (Some k)
  then have ne: "digit_candidates v k \<noteq> []"
    by (auto simp: find_Some_iff)
  let ?r = "foldl (\<lambda>b c. if nearer v k c b then c else b)
      (hd (digit_candidates v k)) (tl (digit_candidates v k))"
  have "?r \<in> set (hd (digit_candidates v k) # tl (digit_candidates v k))"
    by (rule foldl_select)
  with ne have "(fst ?r, snd ?r) \<in> set (digit_candidates v k)" by simp
  then have "1 \<le> fst ?r" by (rule digit_candidates_pos)
  with Some show ?thesis by (simp add: shortest_digits_def)
qed

lemma takeWhile_digits:
  "list_all is_digit xs \<Longrightarrow> ys = [] \<or> \<not> is_digit (hd ys) \<Longrightarrow> takeWhile is_digit (xs @ ys) = xs"
  by (induction xs) (auto simp: takeWhile_eq_Nil_iff)

lemma dropWhile_digits:
  "list_all is_digit xs \<Longrightarrow> ys = [] \<or> \<not> is_digit (hd ys) \<Longrightarrow> dropWhile is_digit (xs @ ys) = ys"
  by (induction xs) (auto simp: dropWhile_eq_self_iff)

lemma lex_int_digits:
  assumes "ip \<noteq> []" and "list_all is_digit ip" and "hd ip = 0x30 \<longrightarrow> ip = [0x30]"
    and "ys = [] \<or> \<not> is_digit (hd ys)"
  shows "lex_int (ip @ ys) = Some (ip, ys)"
proof -
  from assms(1) obtain c cs where ip: "ip = c # cs" by (cases ip) auto
  show ?thesis
    using assms by (auto simp: ip lex_int_def takeWhile_digits dropWhile_digits)
qed

lemma lex_frac_none: "ys = [] \<or> hd ys \<noteq> 0x2E \<Longrightarrow> lex_frac ys = Some ([], ys)"
  by (cases ys) (auto simp: lex_frac_def)

lemma lex_frac_digits:
  assumes "fp \<noteq> []" and "list_all is_digit fp" and "ys = [] \<or> \<not> is_digit (hd ys)"
  shows "lex_frac (0x2E # fp @ ys) = Some (0x2E # fp, ys)"
  using assms by (simp add: lex_frac_def takeWhile_digits dropWhile_digits)

lemma lex_exp_none: "ys = [] \<or> (hd ys \<noteq> 0x65 \<and> hd ys \<noteq> 0x45) \<Longrightarrow> lex_exp ys = Some ([], ys)"
  by (cases ys) (auto simp: lex_exp_def)

lemma lex_exp_digits:
  assumes "ep \<noteq> []" and "list_all is_digit ep" and "sg = 0x2B \<or> sg = 0x2D"
    and "ys = [] \<or> \<not> is_digit (hd ys)"
  shows "lex_exp (0x65 # sg # ep @ ys) = Some (0x65 # sg # ep, ys)"
  using assms by (auto simp: lex_exp_def takeWhile_digits dropWhile_digits)

lemma delimited_cases:
  "delimited rest \<Longrightarrow>
     rest = [] \<or> (\<not> is_digit (hd rest) \<and> hd rest \<noteq> 0x2E \<and> hd rest \<noteq> 0x65 \<and> hd rest \<noteq> 0x45)"
  by (cases rest) (auto simp: delimited_def is_digit_def)

lemma delimited_simps [simp]:
  "delimited []" "delimited (0x2C # xs)" "delimited (0x5D # xs)" "delimited (0x7D # xs)"
  by (simp_all add: delimited_def)

lemma lex_number_parts:
  assumes ip: "ip \<noteq> []" "list_all is_digit ip" "hd ip = 0x30 \<longrightarrow> ip = [0x30]"
    and F: "F = [] \<or> (\<exists>fp. fp \<noteq> [] \<and> list_all is_digit fp \<and> F = 0x2E # fp)"
    and E: "E = [] \<or> (\<exists>sg ep. ep \<noteq> [] \<and> list_all is_digit ep \<and> (sg = 0x2B \<or> sg = 0x2D) \<and>
              E = 0x65 # sg # ep)"
    and sn: "sn = [] \<or> sn = [0x2D]" and rest: "delimited rest"
  shows "lex_number (sn @ ip @ F @ E @ rest) = Some (sn @ ip @ F @ E, rest)"
proof -
  from rest have r: "rest = [] \<or>
      (\<not> is_digit (hd rest) \<and> hd rest \<noteq> 0x2E \<and> hd rest \<noteq> 0x65 \<and> hd rest \<noteq> 0x45)"
    by (rule delimited_cases)
  have r': "rest = [] \<or> \<not> is_digit (hd rest)"
    using r by blast
  from E have e: "lex_exp (E @ rest) = Some (E, rest)"
  proof
    assume "E = []"
    with r lex_exp_none [of rest] show ?thesis by auto
  next
    assume "\<exists>sg ep. ep \<noteq> [] \<and> list_all is_digit ep \<and> (sg = 0x2B \<or> sg = 0x2D) \<and> E = 0x65 # sg # ep"
    then obtain sg ep where ep: "ep \<noteq> []" "list_all is_digit ep" "sg = 0x2B \<or> sg = 0x2D"
        "E = 0x65 # sg # ep"
      by blast
    have "lex_exp (0x65 # sg # ep @ rest) = Some (0x65 # sg # ep, rest)"
      using ep(1-3) r' by (rule lex_exp_digits)
    then show ?thesis by (simp add: ep(4))
  qed
  have ER: "E @ rest = [] \<or> (\<not> is_digit (hd (E @ rest)) \<and> hd (E @ rest) \<noteq> 0x2E)"
    using E r by (auto simp: is_digit_def)
  have ER': "E @ rest = [] \<or> \<not> is_digit (hd (E @ rest))"
    using ER by blast
  from F have f: "lex_frac (F @ E @ rest) = Some (F, E @ rest)"
  proof
    assume "F = []"
    with ER lex_frac_none [of "E @ rest"] show ?thesis by auto
  next
    assume "\<exists>fp. fp \<noteq> [] \<and> list_all is_digit fp \<and> F = 0x2E # fp"
    then obtain fp where fp: "fp \<noteq> []" "list_all is_digit fp" "F = 0x2E # fp"
      by blast
    have "lex_frac (0x2E # fp @ E @ rest) = Some (0x2E # fp, E @ rest)"
      using fp(1,2) ER' by (rule lex_frac_digits)
    then show ?thesis by (simp add: fp(3))
  qed
  have FER: "F @ E @ rest = [] \<or> \<not> is_digit (hd (F @ E @ rest))"
    using F ER by (auto simp: is_digit_def)
  have i: "lex_int (ip @ F @ E @ rest) = Some (ip, F @ E @ rest)"
    using ip FER by (rule lex_int_digits)
  from ip(1) obtain c cs where c0: "ip = c # cs"
    by (cases ip) auto
  with ip(2) have "c \<noteq> 0x2D"
    by (auto simp: is_digit_def)
  note c = c0 this
  from sn show ?thesis
  proof
    assume "sn = []"
    with i f e c show ?thesis by (simp add: lex_number_def)
  next
    assume "sn = [0x2D]"
    with i f e show ?thesis by (simp add: lex_number_def)
  qed
qed

lemma digits_toString_parts:
  assumes ds: "ds \<noteq> []" "list_all is_digit ds" "hd ds \<noteq> 0x30"
  shows "\<exists>ip F E. digits_toString ds n = ip @ F @ E \<and>
           ip \<noteq> [] \<and> list_all is_digit ip \<and> (hd ip = 0x30 \<longrightarrow> ip = [0x30]) \<and>
           (F = [] \<or> (\<exists>fp. fp \<noteq> [] \<and> list_all is_digit fp \<and> F = 0x2E # fp)) \<and>
           (E = [] \<or> (\<exists>sg ep. ep \<noteq> [] \<and> list_all is_digit ep \<and> (sg = 0x2B \<or> sg = 0x2D) \<and>
              E = 0x65 # sg # ep))"
proof -
  let ?k = "int (length ds)"
  have zero: "is_digit 0x30" by (simp add: is_digit_def)
  have zeros: "list_all is_digit (replicate m 0x30)" for m
    using zero by (simp add: list_all_iff)
  let ?E = "0x65 # (if n - 1 < 0 then 0x2D else 0x2B) # digits_of \<bar>n - 1\<bar>"
  have E: "\<exists>sg ep. ep \<noteq> [] \<and> list_all is_digit ep \<and> (sg = 0x2B \<or> sg = 0x2D) \<and> ?E = 0x65 # sg # ep"
    by (auto simp: digits_of_not_Nil digits_of_digits)
  consider (a) "?k \<le> n \<and> n \<le> 21"
    | (b) "\<not> (?k \<le> n \<and> n \<le> 21)" "0 < n \<and> n \<le> 21"
    | (c) "\<not> (?k \<le> n \<and> n \<le> 21)" "\<not> (0 < n \<and> n \<le> 21)" "- 6 < n \<and> n \<le> 0"
    | (d) "\<not> (?k \<le> n \<and> n \<le> 21)" "\<not> (0 < n \<and> n \<le> 21)" "\<not> (- 6 < n \<and> n \<le> 0)" "?k = 1"
    | (e) "\<not> (?k \<le> n \<and> n \<le> 21)" "\<not> (0 < n \<and> n \<le> 21)" "\<not> (- 6 < n \<and> n \<le> 0)" "?k \<noteq> 1"
    by blast
  then show ?thesis
  proof cases
    case a
    have "digits_toString ds n = (ds @ replicate (nat (n - ?k)) 0x30) @ [] @ []"
      unfolding digits_toString_def Let_def using a by (simp only: simp_thms if_True if_False append_Nil2 append_Nil append_Cons)
    moreover have "list_all is_digit (ds @ replicate (nat (n - ?k)) 0x30)"
      using ds zeros by simp
    moreover have "hd (ds @ replicate (nat (n - ?k)) 0x30) \<noteq> 0x30"
      using ds by simp
    ultimately show ?thesis
      using ds(1) by (intro exI [of _ "ds @ replicate (nat (n - ?k)) 0x30"] exI [of _ "[]"]) simp
  next
    case b
    then have n: "0 < n" "nat n < length ds" by auto
    have "digits_toString ds n = take (nat n) ds @ (0x2E # drop (nat n) ds) @ []"
      unfolding digits_toString_def Let_def using b by (simp only: simp_thms if_True if_False append_Nil2 append_Nil append_Cons)
    moreover have "take (nat n) ds \<noteq> []" using n ds(1) by simp
    moreover have "list_all is_digit (take (nat n) ds)" "list_all is_digit (drop (nat n) ds)"
      using ds(2) by (auto simp: list_all_iff dest: in_set_takeD in_set_dropD)
    moreover have "hd (take (nat n) ds) \<noteq> 0x30" using n ds by simp
    moreover have "drop (nat n) ds \<noteq> []" using n by simp
    ultimately show ?thesis
      by (intro exI [of _ "take (nat n) ds"] exI [of _ "0x2E # drop (nat n) ds"] exI [of _ "[]"])
        simp
  next
    case c
    have "digits_toString ds n = [0x30] @ (0x2E # replicate (nat (- n)) 0x30 @ ds) @ []"
      unfolding digits_toString_def Let_def using c by (simp only: simp_thms if_True if_False append_Nil2 append_Nil append_Cons)
    moreover have "list_all is_digit (replicate (nat (- n)) 0x30 @ ds)"
      using ds zeros by simp
    ultimately show ?thesis
      using ds(1) zero
      by (intro exI [of _ "[0x30]"] exI [of _ "0x2E # replicate (nat (- n)) 0x30 @ ds"]
          exI [of _ "[]"]) simp
  next
    case d
    have "digits_toString ds n = ds @ [] @ ?E"
      unfolding digits_toString_def Let_def using d by (simp only: simp_thms if_True if_False append_Nil)
    then show ?thesis
      using ds E by (intro exI [of _ ds] exI [of _ "[]"] exI [of _ ?E]) simp
  next
    case e
    with ds(1) obtain c cs where cs: "ds = c # cs" "cs \<noteq> []"
      by (cases ds) auto
    have "digits_toString ds n = (hd ds # 0x2E # tl ds) @ ?E"
      unfolding digits_toString_def Let_def using e by (simp only: simp_thms if_True if_False append_Nil)
    then have "digits_toString ds n = [c] @ (0x2E # cs) @ ?E"
      by (simp add: cs)
    then show ?thesis
      using ds E cs by (intro exI [of _ "[c]"] exI [of _ "0x2E # cs"] exI [of _ ?E]) simp
  qed
qed

lemma Number_toString_parts:
  "\<exists>sn ip F E. Number_toString (Finite negative v) = sn @ ip @ F @ E \<and>
     (sn = [] \<or> sn = [0x2D]) \<and>
     ip \<noteq> [] \<and> list_all is_digit ip \<and> (hd ip = 0x30 \<longrightarrow> ip = [0x30]) \<and>
     (F = [] \<or> (\<exists>fp. fp \<noteq> [] \<and> list_all is_digit fp \<and> F = 0x2E # fp)) \<and>
     (E = [] \<or> (\<exists>sg ep. ep \<noteq> [] \<and> list_all is_digit ep \<and> (sg = 0x2B \<or> sg = 0x2D) \<and>
        E = 0x65 # sg # ep))"
proof (cases "v = 0")
  case True
  have "Number_toString (Finite negative v) = [] @ [0x30] @ [] @ []"
    using True by (simp add: js_def)
  moreover have "is_digit 0x30" by (simp add: is_digit_def)
  ultimately show ?thesis
    by (intro exI [of _ "[]"] exI [of _ "[0x30]"]) simp
next
  case False
  obtain s n where sn: "shortest_digits v = (s, n)" by (cases "shortest_digits v")
  have s: "1 \<le> s" using shortest_digits_pos [of v] by (simp add: sn)
  have "\<exists>ip F E. digits_toString (digits_of s) n = ip @ F @ E \<and>
           ip \<noteq> [] \<and> list_all is_digit ip \<and> (hd ip = 0x30 \<longrightarrow> ip = [0x30]) \<and>
           (F = [] \<or> (\<exists>fp. fp \<noteq> [] \<and> list_all is_digit fp \<and> F = 0x2E # fp)) \<and>
           (E = [] \<or> (\<exists>sg ep. ep \<noteq> [] \<and> list_all is_digit ep \<and> (sg = 0x2B \<or> sg = 0x2D) \<and>
              E = 0x65 # sg # ep))"
    using s by (intro digits_toString_parts) (simp_all add: digits_of_not_Nil digits_of_digits digits_of_hd)
  then obtain ip F E where parts: "digits_toString (digits_of s) n = ip @ F @ E"
      "ip \<noteq> []" "list_all is_digit ip" "hd ip = 0x30 \<longrightarrow> ip = [0x30]"
      "F = [] \<or> (\<exists>fp. fp \<noteq> [] \<and> list_all is_digit fp \<and> F = 0x2E # fp)"
      "E = [] \<or> (\<exists>sg ep. ep \<noteq> [] \<and> list_all is_digit ep \<and> (sg = 0x2B \<or> sg = 0x2D) \<and>
              E = 0x65 # sg # ep)"
    by blast
  have "Number_toString (Finite negative v) = (if negative then [0x2D] else []) @ ip @ F @ E"
    using False by (simp add: sn parts(1))
  with parts(2-) show ?thesis
    by (intro exI [of _ "if negative then [0x2D] else []"] exI [of _ ip] exI [of _ F] exI [of _ E])
      simp
qed

lemma lex_number_token:
  assumes "lex_number (c # cs) = Some (l, r)" and "c = 0x2D \<or> is_digit c"
  shows "lex (c # cs) = prepend [TNumber l] (lex r)"
  using assms by (auto simp: lex.simps is_json_ws_def is_digit_def map_option_Cons_prepend)

text \<open>The text of a finite number is read as one number literal.\<close>

lemma lex_Number_toString:
  assumes "delimited rest"
  shows "lex (Number_toString (Finite negative v) @ rest) =
         prepend [TNumber (Number_toString (Finite negative v))] (lex rest)"
proof -
  define t where "t = Number_toString (Finite negative v)"
  obtain sn ip F E where parts: "t = sn @ ip @ F @ E"
      "sn = [] \<or> sn = [0x2D]"
      "ip \<noteq> []" "list_all is_digit ip" "hd ip = 0x30 \<longrightarrow> ip = [0x30]"
      "F = [] \<or> (\<exists>fp. fp \<noteq> [] \<and> list_all is_digit fp \<and> F = 0x2E # fp)"
      "E = [] \<or> (\<exists>sg ep. ep \<noteq> [] \<and> list_all is_digit ep \<and> (sg = 0x2B \<or> sg = 0x2D) \<and>
              E = 0x65 # sg # ep)"
    unfolding t_def using Number_toString_parts [of negative v] by blast
  have n: "lex_number (t @ rest) = Some (t, rest)"
    using lex_number_parts [OF parts(3-7,2) assms] by (simp add: parts(1))
  from parts(2-4) obtain c cs where c: "t = c # cs" "c = 0x2D \<or> is_digit c"
    by (cases ip) (auto simp: parts(1))
  from n have "lex_number (c # cs @ rest) = Some (t, rest)"
    by (simp add: c(1))
  then have "lex (c # cs @ rest) = prepend [TNumber t] (lex rest)"
    using c(2) by (rule lex_number_token)
  then have "lex (t @ rest) = prepend [TNumber t] (lex rest)"
    by (simp add: c(1))
  then show ?thesis by (simp only: t_def)
qed

subsection \<open>The text of a value is read back\<close>

lemma lex_intersperse:
  assumes "\<And>x rest. x \<in> set xs \<Longrightarrow> delimited rest \<Longrightarrow> lex (f x @ rest) = prepend (g x) (lex rest)"
    and "delimited rest"
  shows "lex (intersperse [0x2C] (map f xs) @ rest) =
         prepend (intersperse [TComma] (map g xs)) (lex rest)"
  using assms
proof (induction xs rule: induct_list012)
  case 1
  show ?case by simp
next
  case (2 x)
  then show ?case by simp
next
  case (3 x y zs)
  have "lex (intersperse [0x2C] (map f (y # zs)) @ rest) =
      prepend (intersperse [TComma] (map g (y # zs))) (lex rest)"
    by (rule "3.IH"(2)) (simp_all add: "3.prems")
  then show ?case
    by (simp add: "3.prems" lex_punctuation)
qed

lemma lex_stringify:
  "delimited rest \<Longrightarrow> lex (JSON_stringify v @ rest) = prepend (tokens v) (lex rest)"
proof (induction v arbitrary: rest)
  case JNull
  show ?case by (simp add: lex_literals)
next
  case (JBool b)
  show ?case by (simp add: lex_literals)
next
  case (JNum d)
  show ?case
  proof (cases d)
    case (Finite negative v)
    have "lex (Number_toString (Finite negative v) @ rest) =
        prepend [TNumber (Number_toString (Finite negative v))] (lex rest)"
      using JNum by (rule lex_Number_toString)
    then show ?thesis
      by (simp only: Finite JSON_stringify.simps tokens.simps double.case)
  next
    case (Infinite negative)
    then show ?thesis by (simp add: lex_literals)
  qed
next
  case (JStr s)
  show ?case by (simp add: lex_quoted)
next
  case (JArr vs)
  have "lex (JSON_stringify x @ r) = prepend (tokens x) (lex r)"
    if "x \<in> set vs" "delimited r" for x r
    using that by (rule JArr.IH)
  then have "lex (intersperse [0x2C] (map JSON_stringify vs) @ r) =
      prepend (intersperse [TComma] (map tokens vs)) (lex r)" if "delimited r" for r
    using that by (rule lex_intersperse)
  then show ?case
    by (simp add: lex_punctuation)
next
  case (JObj ms)
  let ?f = "\<lambda>(k, v). QuoteJSONString k @ 0x3A # JSON_stringify v"
  let ?g = "\<lambda>(k, v). TString k # TColon # tokens v"
  have "lex (?f x @ r) = prepend (?g x) (lex r)" if "x \<in> set ms" "delimited r" for x r
  proof -
    obtain k v where x: "x = (k, v)" by (cases x)
    from that x have "v \<in> Basic_BNFs.snds x"
      by simp
    then have "lex (JSON_stringify v @ r) = prepend (tokens v) (lex r)"
      using JObj.IH that by blast
    then show ?thesis
      by (simp add: x lex_quoted lex_punctuation)
  qed
  then have "lex (intersperse [0x2C] (map ?f ms) @ r) =
      prepend (intersperse [TComma] (map ?g ms)) (lex r)" if "delimited r" for r
    using that by (rule lex_intersperse)
  then show ?case
    by (simp add: lex_punctuation)
qed

lemma parse_elements:
  assumes "\<And>v m fs. v \<in> set vs \<Longrightarrow> m = PValue \<or> m = PValueOrEnd \<Longrightarrow>
             foldl pstep (m, fs) (tokens v) = complete_value (reread v) fs"
    and "vs \<noteq> []" and "m = PValue \<or> m = PValueOrEnd"
  shows "foldl pstep (m, FArr acc # fs) (intersperse [TComma] (map tokens vs) @ [TRBracket]) =
         complete_value (JArr (rev acc @ map reread vs)) fs"
  using assms
proof (induction vs arbitrary: acc m rule: induct_list012)
  case 1
  then show ?case by simp
next
  case (2 v)
  have "foldl pstep (m, FArr acc # fs) (tokens v) = complete_value (reread v) (FArr acc # fs)"
    by (rule "2.prems"(1)) (simp_all add: "2.prems"(3))
  then show ?case by simp
next
  case (3 v w zs)
  have "foldl pstep (m, FArr acc # fs) (tokens v) = complete_value (reread v) (FArr acc # fs)"
    by (rule "3.prems"(1)) (simp_all add: "3.prems"(3))
  moreover have "foldl pstep (PValue, FArr (reread v # acc) # fs)
        (intersperse [TComma] (map tokens (w # zs)) @ [TRBracket]) =
      complete_value (JArr (rev (reread v # acc) @ map reread (w # zs))) fs"
    by (rule "3.IH"(2)) (simp_all add: "3.prems"(1))
  ultimately show ?case by simp
qed

lemma parse_members:
  assumes "\<And>k v m fs. (k, v) \<in> set ms \<Longrightarrow> m = PValue \<or> m = PValueOrEnd \<Longrightarrow>
             foldl pstep (m, fs) (tokens v) = complete_value (reread v) fs"
    and "ms \<noteq> []" and "m = PKey \<or> m = PKeyOrEnd"
  shows "foldl pstep (m, FObj acc # fs)
           (intersperse [TComma] (map (\<lambda>(k, v). TString k # TColon # tokens v) ms) @ [TRBrace]) =
         complete_value
           (JObj (foldl (\<lambda>acc (k, v). obj_set acc k v) acc (map (\<lambda>(k, v). (k, reread v)) ms))) fs"
  using assms
proof (induction ms arbitrary: acc m rule: induct_list012)
  case 1
  then show ?case by simp
next
  case (2 p)
  obtain k v where p: "p = (k, v)" by (cases p)
  have key: "pstep (m, FObj acc # fs) (TString k) = (PColon k, FObj acc # fs)"
    using "2.prems"(3) by auto
  have val: "foldl pstep (PValue, FObjKey acc k # fs) (tokens v) =
      complete_value (reread v) (FObjKey acc k # fs)"
    by (rule "2.prems"(1) [of k]) (simp_all add: p)
  show ?case
    by (simp add: p key val)
next
  case (3 p q zs)
  obtain k v where p: "p = (k, v)" by (cases p)
  have key: "pstep (m, FObj acc # fs) (TString k) = (PColon k, FObj acc # fs)"
    using "3.prems"(3) by auto
  let ?rest = "intersperse [TComma] (map (\<lambda>(k, v). TString k # TColon # tokens v) (q # zs)) @
      [TRBrace]"
  have val: "foldl pstep (PValue, FObjKey acc k # fs) (tokens v) =
      complete_value (reread v) (FObjKey acc k # fs)"
    by (rule "3.prems"(1) [of k]) (simp_all add: p)
  have "foldl pstep (PKey, FObj (obj_set acc k (reread v)) # fs) ?rest =
      complete_value
        (JObj (foldl (\<lambda>acc (k, v). obj_set acc k v) (obj_set acc k (reread v))
           (map (\<lambda>(k, v). (k, reread v)) (q # zs)))) fs"
  proof (rule "3.IH"(2))
    show "foldl pstep (m, fs) (tokens v) = complete_value (reread v) fs"
      if "(k, v) \<in> set (q # zs)" "m = PValue \<or> m = PValueOrEnd" for k v m fs
      using that by (intro "3.prems"(1) [of k]) simp_all
  qed simp_all
  then show ?case
    by (simp add: p key val)
qed

lemma parse_value_tokens:
  "m = PValue \<or> m = PValueOrEnd \<Longrightarrow>
   foldl pstep (m, fs) (tokens v) = complete_value (reread v) fs"
proof (induction v arbitrary: m fs)
  case JNull
  then show ?case by auto
next
  case (JBool b)
  then show ?case by auto
next
  case (JNum d)
  then show ?case by (cases d) auto
next
  case (JStr s)
  then show ?case by auto
next
  case (JArr vs)
  have start: "pstep (m, fs) TLBracket = (PValueOrEnd, FArr [] # fs)"
    using JArr.prems by auto
  show ?case
  proof (cases "vs = []")
    case True
    with start show ?thesis by simp
  next
    case False
    have "foldl pstep (PValueOrEnd, FArr [] # fs)
          (intersperse [TComma] (map tokens vs) @ [TRBracket]) =
        complete_value (JArr (rev [] @ map reread vs)) fs"
    proof (rule parse_elements)
      show "foldl pstep (m, fs) (tokens v) = complete_value (reread v) fs"
        if "v \<in> set vs" "m = PValue \<or> m = PValueOrEnd" for v m fs
        using that by (rule JArr.IH)
    qed (simp_all add: False)
    with start show ?thesis by simp
  qed
next
  case (JObj ms)
  have start: "pstep (m, fs) TLBrace = (PKeyOrEnd, FObj [] # fs)"
    using JObj.prems by auto
  show ?case
  proof (cases "ms = []")
    case True
    with start show ?thesis by simp
  next
    case False
    have "foldl pstep (PKeyOrEnd, FObj [] # fs)
          (intersperse [TComma] (map (\<lambda>(k, v). TString k # TColon # tokens v) ms) @ [TRBrace]) =
        complete_value
          (JObj (foldl (\<lambda>acc (k, v). obj_set acc k v) [] (map (\<lambda>(k, v). (k, reread v)) ms))) fs"
    proof (rule parse_members)
      show "foldl pstep (m, fs) (tokens v) = complete_value (reread v) fs"
        if "(k, v) \<in> set ms" "m = PValue \<or> m = PValueOrEnd" for k v m fs
      proof (rule JObj.IH)
        show "(k, v) \<in> set ms" by (rule that(1))
        show "v \<in> Basic_BNFs.snds (k, v)" by simp
        show "m = PValue \<or> m = PValueOrEnd" by (rule that(2))
      qed
    qed (simp_all add: False)
    with start show ?thesis by simp
  qed
qed

text \<open>Reading the text of a value gives the value as a reader sees it.\<close>

lemma JSON_parse_reread: "JSON_parse (JSON_stringify v) = Some (reread v)"
proof -
  have "lex (JSON_stringify v @ []) = prepend (tokens v) (lex [])"
    by (rule lex_stringify) simp
  then have l: "lex (JSON_stringify v) = Some (tokens v)"
    by (simp add: prepend_def lex.simps)
  have "foldl pstep (PValue, []) (tokens v) = complete_value (reread v) []"
    by (rule parse_value_tokens) simp
  then have "parse_tokens (tokens v) = Some (reread v)"
    by (simp add: parse_tokens_def)
  with l show ?thesis
    by (simp add: JSON_parse_def)
qed

lemma obj_set_new:
  "k \<notin> fst ` set ms \<Longrightarrow> \<not> is_array_index k \<Longrightarrow> obj_set ms k v = ms @ [(k, v)]"
  by (simp add: obj_set_def)

lemma foldl_obj_set_new:
  "distinct (map fst (acc @ ms)) \<Longrightarrow> \<forall>(k, v)\<in>set ms. \<not> is_array_index k \<Longrightarrow>
   foldl (\<lambda>acc (k, v). obj_set acc k v) acc ms = acc @ ms"
proof (induction ms arbitrary: acc)
  case Nil
  show ?case by simp
next
  case (Cons p ms)
  obtain k v where p: "p = (k, v)" by (cases p)
  have new: "obj_set acc k v = acc @ [(k, v)]"
    using Cons.prems by (intro obj_set_new) (auto simp: p)
  have "foldl (\<lambda>acc (k, v). obj_set acc k v) (acc @ [(k, v)]) ms = (acc @ [(k, v)]) @ ms"
    using Cons.prems by (intro Cons.IH) (auto simp: p)
  then show ?case
    by (simp add: p new)
qed

lemma plain_reread: "plain v \<Longrightarrow> reread v = v"
proof (induction v)
  case (JArr vs)
  then have "map reread vs = vs"
    by (intro map_idI) (simp add: list_all_iff)
  then show ?case by simp
next
  case (JObj ms)
  have "(case p of (k, v) \<Rightarrow> (k, reread v)) = p" if "p \<in> set ms" for p
  proof -
    obtain k v where p: "p = (k, v)" by (cases p)
    with that JObj.prems have "plain v" by (auto simp: list_all_iff)
    moreover from that p have "v \<in> Basic_BNFs.snds p" by simp
    ultimately have "reread v = v" using JObj.IH that by blast
    then show ?thesis by (simp add: p)
  qed
  then have m: "map (\<lambda>(k, v). (k, reread v)) ms = ms"
    by (intro map_idI)
  have "foldl (\<lambda>acc (k, v). obj_set acc k v) [] ms = [] @ ms"
    using JObj.prems by (intro foldl_obj_set_new) (simp_all add: list_all_iff)
  then show ?case
    by (simp add: m)
qed simp_all

text \<open>Reading the text of a plain value gives the value.\<close>

lemma JSON_parse_stringify: "plain v \<Longrightarrow> JSON_parse (JSON_stringify v) = Some v"
  by (simp add: JSON_parse_reread plain_reread)

lemma JSON_stringify_not_empty: "plain v \<Longrightarrow> JSON_stringify v \<noteq> []"
  by (cases v) (simp_all add: js_def QuoteJSONString_def)
section \<open>Properties of the service worker\<close>

lemma nullish_or_notification:
  "nullish_or (opt_prop (get_prop payload (js ''notification'')) f) d = notification_field payload f d"
proof (cases payload)
  case (JObj ms)
  show ?thesis
  proof (cases "map_of ms (js ''notification'')")
    case None
    with JObj show ?thesis by (simp add: notification_field_def)
  next
    case (Some n)
    show ?thesis
    proof (cases n)
      case (JObj ns)
      show ?thesis
      proof (cases "map_of ns f")
        case None
        with \<open>payload = JObj ms\<close> Some JObj show ?thesis by (simp add: notification_field_def)
      next
        case (Some v)
        with \<open>payload = JObj ms\<close> \<open>map_of ms (js ''notification'') = Some n\<close> JObj
        show ?thesis by (cases v) (simp_all add: notification_field_def)
      qed
    qed (use \<open>payload = JObj ms\<close> Some in \<open>simp_all add: notification_field_def\<close>)
  qed
qed (simp_all add: notification_field_def)

text \<open>
  C3, as amended. A background message that the library hands to the registered callback
  is shown as one notification whose title and body are the payload's notification
  fields, with the defaults of the callback. The listener of raw \<open>push\<close> events shows a
  notification, with its own default title, when the worker has no messaging instance, the
  event has data and the data is the JSON text of a value other than \<open>null\<close>; for every
  other \<open>push\<close> event it shows nothing.
\<close>

theorem sw_shows_notification:
  "(payload \<noteq> JNull \<and> 0 < onBackgroundMessageCalls st \<longrightarrow>
      (\<exists>nt. shown (sw_step lib st (BackgroundMessage payload)) = nt # shown st \<and>
         n_title nt = notification_field payload (js ''title'') (JStr BACKGROUND_TITLE) \<and>
         n_body nt = notification_field payload (js ''body'') (JStr []))) \<and>
   (messagingInstance st = None \<and> JSON_parse text = Some payload \<and> payload \<noteq> JNull \<longrightarrow>
      (\<exists>nt. shown (sw_step lib st (PushEvent (Some text))) = nt # shown st \<and>
         n_title nt = notification_field payload (js ''title'') (JStr PUSH_TITLE) \<and>
         n_body nt = notification_field payload (js ''body'') (JStr []))) \<and>
   (messagingInstance st \<noteq> None \<or> d = None \<or> (\<exists>t. d = Some t \<and> JSON_parse t \<in> {None, Some JNull}) \<longrightarrow>
      shown (sw_step lib st (PushEvent d)) = shown st)"
proof (intro conjI impI)
  assume "payload \<noteq> JNull \<and> 0 < onBackgroundMessageCalls st"
  then show "\<exists>nt. shown (sw_step lib st (BackgroundMessage payload)) = nt # shown st \<and>
         n_title nt = notification_field payload (js ''title'') (JStr BACKGROUND_TITLE) \<and>
         n_body nt = notification_field payload (js ''body'') (JStr [])"
    by (simp add: deliverBackgroundMessage_def backgroundMessageHandler_def nullish_or_notification)
next
  assume "messagingInstance st = None \<and> JSON_parse text = Some payload \<and> payload \<noteq> JNull"
  then show "\<exists>nt. shown (sw_step lib st (PushEvent (Some text))) = nt # shown st \<and>
         n_title nt = notification_field payload (js ''title'') (JStr PUSH_TITLE) \<and>
         n_body nt = notification_field payload (js ''body'') (JStr [])"
    by (simp add: onPushEvent_def nullish_or_notification)
next
  assume "messagingInstance st \<noteq> None \<or> d = None \<or>
    (\<exists>t. d = Some t \<and> JSON_parse t \<in> {None, Some JNull})"
  then show "shown (sw_step lib st (PushEvent d)) = shown st"
    by (auto simp: onPushEvent_def split: option.splits)
qed

lemma parse_push_text:
  "JSON_parse (js ''{\"notification\":{\"title\":\"Hi\"}}'') =
     Some (JObj [(js ''notification'', JObj [(js ''title'', JStr (js ''Hi''))])])"
  by code_simp

lemma parse_not_json: "JSON_parse (js ''hello'') = None"
  by code_simp

theorem sw_shows_notification_witness:
  "(\<exists>nt. shown (sw_step example_firebase (sw_run example_firebase [MessageEvent example_init_message])
            (BackgroundMessage (JObj [(js ''notification'', JObj [(js ''title'', JStr (js ''Hi''))])])))
          = nt # shown (sw_run example_firebase [MessageEvent example_init_message]) \<and>
        n_title nt = JStr (js ''Hi'') \<and> n_body nt = JStr []) \<and>
   (\<exists>nt. shown (sw_step example_firebase sw_initial
            (PushEvent (Some (js ''{\"notification\":{\"title\":\"Hi\"}}'')))) = nt # shown sw_initial \<and>
        n_title nt = JStr (js ''Hi'') \<and> n_body nt = JStr []) \<and>
   shown (sw_step example_firebase sw_initial (PushEvent (Some (js ''hello'')))) = shown sw_initial"
proof -
  let ?p = "JObj [(js ''notification'', JObj [(js ''title'', JStr (js ''Hi''))])]"
  let ?st = "sw_run example_firebase [MessageEvent example_init_message]"
  have f: "notification_field ?p (js ''title'') d = JStr (js ''Hi'')"
    "notification_field ?p (js ''body'') d = d" for d
    by (simp_all add: notification_field_def)
  have a: "?p \<noteq> JNull \<and> 0 < onBackgroundMessageCalls ?st"
    by (simp add: sw_run_def sw_initial_def onMessageEvent_def initializeMessaging_def
        example_init_message_def example_config_def example_firebase_def)
  have b: "messagingInstance sw_initial = None \<and>
      JSON_parse (js ''{\"notification\":{\"title\":\"Hi\"}}'') = Some ?p \<and> ?p \<noteq> JNull"
    by (simp add: parse_push_text sw_initial_def)
  have c: "messagingInstance sw_initial \<noteq> None \<or> Some (js ''hello'') = None \<or>
      (\<exists>t. Some (js ''hello'') = Some t \<and> JSON_parse t \<in> {None, Some JNull})"
    by (simp add: parse_not_json)
  from a b c
    sw_shows_notification [of ?p ?st example_firebase]
    sw_shows_notification [of ?p sw_initial example_firebase "js ''{\"notification\":{\"title\":\"Hi\"}}''"
      "Some (js ''hello'')"]
  show ?thesis
    unfolding f by blast
qed

theorem sw_push_without_notification:
  "shown (sw_run example_firebase [PushEvent None]) = [] \<and>
   shown (sw_run example_firebase [PushEvent (Some (js ''hello''))]) = []"
  by (simp add: sw_run_def sw_initial_def onPushEvent_def parse_not_json)









text \<open>
  Two initialisations in a row: the second one finds the flag set. After a configuration
  that the library does not accept, nothing is registered.
\<close>

lemma background_handler_example:
  "onBackgroundMessageCalls (sw_run example_firebase
     [MessageEvent example_init_message, MessageEvent example_init_message]) = 1 \<and>
   onBackgroundMessageCalls (sw_run example_firebase
     [MessageEvent empty_init_message, MessageEvent example_init_message]) = 0 \<and>
   \<not> backgroundHandlerRegistered (sw_run example_firebase
     [MessageEvent empty_init_message, MessageEvent example_init_message])"
  by (simp add: sw_run_def sw_initial_def onMessageEvent_def initializeMessaging_def
      example_init_message_def empty_init_message_def example_config_def example_firebase_def)
section \<open>Properties of \<open>ensureServiceWorkerRegistration\<close>\<close>

text \<open>
  C1, as amended. Without \<open>serviceWorker\<close> in \<open>navigator\<close> the function throws. With a
  registration for the script it registers nothing, posts \<open>INIT_FIREBASE\<close> with the
  current configuration to the active worker of the registration, or else to the waiting
  one, if there is either, and returns the registration. Without one it registers the
  script; when the new registration has an active worker already, or no worker that is
  being installed or is waiting, it goes on at once, and otherwise it listens to that
  worker and goes on at the first \<open>statechange\<close> event that finds the worker
  \<open>activated\<close>; it then posts \<open>INIT_FIREBASE\<close> as before and returns the registration.
  When no such event comes, it posts nothing and never returns.
\<close>

theorem ensure_registration_state_check:
  "(\<not> serviceWorker_in_navigator e \<longrightarrow>
      ensureServiceWorkerRegistration e c = ([], Threw (JsError (Some MSG_NO_SERVICE_WORKER)))) \<and>
   (serviceWorker_in_navigator e \<and> getRegistration_result e = Inr (Some existing) \<longrightarrow>
      ensureServiceWorkerRegistration e c =
        (CallGetRegistration SW_SCRIPT #
           (case or_else (active existing) (waiting existing) of
              None \<Rightarrow> []
            | Some worker \<Rightarrow> [PostMessage worker (INIT_FIREBASE_message c)]),
         Returned existing)) \<and>
   (serviceWorker_in_navigator e \<and> getRegistration_result e = Inr None \<and>
    register_result e = Inr registration \<and>
    (active registration \<noteq> None \<or>
     (installing registration = None \<and> waiting registration = None)) \<longrightarrow>
      ensureServiceWorkerRegistration e c =
        ([CallGetRegistration SW_SCRIPT, CallRegister SW_SCRIPT] @
           (case or_else (active registration) (waiting registration) of
              None \<Rightarrow> []
            | Some worker \<Rightarrow> [PostMessage worker (INIT_FIREBASE_message c)]),
         Returned registration)) \<and>
   (serviceWorker_in_navigator e \<and> getRegistration_result e = Inr None \<and>
    register_result e = Inr registration \<and> active registration = None \<and>
    or_else (installing registration) (waiting registration) = Some serviceWorker \<longrightarrow>
      (case find (\<lambda>ev. fst ev = Activated) (statechange_events e) of
         None \<Rightarrow>
           ensureServiceWorkerRegistration e c =
             ([CallGetRegistration SW_SCRIPT, CallRegister SW_SCRIPT,
               AddStatechangeListener serviceWorker], Pending)
       | Some ev \<Rightarrow>
           ensureServiceWorkerRegistration e c =
             ([CallGetRegistration SW_SCRIPT, CallRegister SW_SCRIPT,
               AddStatechangeListener serviceWorker] @
                (case or_else (active (snd ev)) (waiting (snd ev)) of
                   None \<Rightarrow> []
                 | Some worker \<Rightarrow> [PostMessage worker (INIT_FIREBASE_message c)]),
              Returned (snd ev))))"
proof (intro conjI impI)
  assume "\<not> serviceWorker_in_navigator e"
  then show "ensureServiceWorkerRegistration e c = ([], Threw (JsError (Some MSG_NO_SERVICE_WORKER)))"
    by (simp add: ensureServiceWorkerRegistration_def)
next
  assume "serviceWorker_in_navigator e \<and> getRegistration_result e = Inr (Some existing)"
  then show "ensureServiceWorkerRegistration e c =
        (CallGetRegistration SW_SCRIPT #
           (case or_else (active existing) (waiting existing) of
              None \<Rightarrow> []
            | Some worker \<Rightarrow> [PostMessage worker (INIT_FIREBASE_message c)]),
         Returned existing)"
    by (simp add: ensureServiceWorkerRegistration_def andThen_def call_def post_init_def)
next
  assume a: "serviceWorker_in_navigator e \<and> getRegistration_result e = Inr None \<and>
    register_result e = Inr registration \<and>
    (active registration \<noteq> None \<or>
     (installing registration = None \<and> waiting registration = None))"
  then have "registrationReady e registration = ([], Returned registration)"
    by (auto simp: registrationReady_def)
  with a show "ensureServiceWorkerRegistration e c =
        ([CallGetRegistration SW_SCRIPT, CallRegister SW_SCRIPT] @
           (case or_else (active registration) (waiting registration) of
              None \<Rightarrow> []
            | Some worker \<Rightarrow> [PostMessage worker (INIT_FIREBASE_message c)]),
         Returned registration)"
    by (simp add: ensureServiceWorkerRegistration_def andThen_def call_def post_init_def)
next
  assume a: "serviceWorker_in_navigator e \<and> getRegistration_result e = Inr None \<and>
    register_result e = Inr registration \<and> active registration = None \<and>
    or_else (installing registration) (waiting registration) = Some serviceWorker"
  then have r: "registrationReady e registration =
      ([AddStatechangeListener serviceWorker],
       case find (\<lambda>ev. fst ev = Activated) (statechange_events e) of
         None \<Rightarrow> Pending
       | Some ev \<Rightarrow> Returned (snd ev))"
    by (simp add: registrationReady_def)
  from a show "case find (\<lambda>ev. fst ev = Activated) (statechange_events e) of
         None \<Rightarrow>
           ensureServiceWorkerRegistration e c =
             ([CallGetRegistration SW_SCRIPT, CallRegister SW_SCRIPT,
               AddStatechangeListener serviceWorker], Pending)
       | Some ev \<Rightarrow>
           ensureServiceWorkerRegistration e c =
             ([CallGetRegistration SW_SCRIPT, CallRegister SW_SCRIPT,
               AddStatechangeListener serviceWorker] @
                (case or_else (active (snd ev)) (waiting (snd ev)) of
                   None \<Rightarrow> []
                 | Some worker \<Rightarrow> [PostMessage worker (INIT_FIREBASE_message c)]),
              Returned (snd ev))"
    by (simp add: ensureServiceWorkerRegistration_def andThen_def call_def post_init_def r
        split: option.splits)
qed

theorem ensure_registration_state_check_witness:
  "ensureServiceWorkerRegistration (example_env\<lparr>serviceWorker_in_navigator := False\<rparr>) defaultConfig =
     ([], Threw (JsError (Some MSG_NO_SERVICE_WORKER))) \<and>
   ensureServiceWorkerRegistration
     (example_env\<lparr>getRegistration_result :=
        Inr (Some \<lparr>installing = None, waiting = Some 4, active = Some 3\<rparr>)\<rparr>) defaultConfig =
     ([CallGetRegistration SW_SCRIPT, PostMessage 3 (INIT_FIREBASE_message defaultConfig)],
      Returned \<lparr>installing = None, waiting = Some 4, active = Some 3\<rparr>) \<and>
   ensureServiceWorkerRegistration
     (example_env\<lparr>register_result := Inr \<lparr>installing = None, waiting = None, active = None\<rparr>\<rparr>)
     defaultConfig =
     ([CallGetRegistration SW_SCRIPT, CallRegister SW_SCRIPT],
      Returned \<lparr>installing = None, waiting = None, active = None\<rparr>) \<and>
   ensureServiceWorkerRegistration example_env defaultConfig =
     ([CallGetRegistration SW_SCRIPT, CallRegister SW_SCRIPT, AddStatechangeListener 1,
       PostMessage 1 (INIT_FIREBASE_message defaultConfig)],
      Returned \<lparr>installing = None, waiting = None, active = Some 1\<rparr>) \<and>
   ensureServiceWorkerRegistration (example_env\<lparr>statechange_events := [(Redundant,
       \<lparr>installing = None, waiting = None, active = None\<rparr>)]\<rparr>) defaultConfig =
     ([CallGetRegistration SW_SCRIPT, CallRegister SW_SCRIPT, AddStatechangeListener 1], Pending)"
proof -
  let ?e1 = "example_env\<lparr>serviceWorker_in_navigator := False\<rparr>"
  let ?r2 = "\<lparr>installing = None, waiting = Some 4, active = Some 3\<rparr>"
  let ?e2 = "example_env\<lparr>getRegistration_result := Inr (Some ?r2)\<rparr>"
  let ?r3 = "\<lparr>installing = None, waiting = None, active = None\<rparr>"
  let ?e3 = "example_env\<lparr>register_result := Inr ?r3\<rparr>"
  let ?r4 = "\<lparr>installing = Some 1, waiting = None, active = None\<rparr>"
  let ?e5 = "example_env\<lparr>statechange_events := [(Redundant, ?r3)]\<rparr>"
  have h1: "\<not> serviceWorker_in_navigator ?e1"
    by simp
  have h2: "serviceWorker_in_navigator ?e2 \<and> getRegistration_result ?e2 = Inr (Some ?r2)"
    by (simp add: example_env_def)
  have h3: "serviceWorker_in_navigator ?e3 \<and> getRegistration_result ?e3 = Inr None \<and>
      register_result ?e3 = Inr ?r3 \<and>
      (active ?r3 \<noteq> None \<or> (installing ?r3 = None \<and> waiting ?r3 = None))"
    by (simp add: example_env_def)
  have h4: "serviceWorker_in_navigator example_env \<and> getRegistration_result example_env = Inr None \<and>
      register_result example_env = Inr ?r4 \<and> active ?r4 = None \<and>
      or_else (installing ?r4) (waiting ?r4) = Some 1"
    by (simp add: example_env_def)
  have h5: "serviceWorker_in_navigator ?e5 \<and> getRegistration_result ?e5 = Inr None \<and>
      register_result ?e5 = Inr ?r4 \<and> active ?r4 = None \<and>
      or_else (installing ?r4) (waiting ?r4) = Some 1"
    by (simp add: example_env_def)
  have f4: "find (\<lambda>ev. fst ev = Activated) (statechange_events example_env) =
      Some (Activated, \<lparr>installing = None, waiting = None, active = Some 1\<rparr>)"
    by (simp add: example_env_def)
  have f5: "find (\<lambda>ev. fst ev = Activated) (statechange_events ?e5) = None"
    by simp
  from ensure_registration_state_check [of ?e1 defaultConfig] h1
  have c1: "ensureServiceWorkerRegistration ?e1 defaultConfig =
      ([], Threw (JsError (Some MSG_NO_SERVICE_WORKER)))"
    by blast
  from ensure_registration_state_check [of ?e2 defaultConfig ?r2] h2
  have c2: "ensureServiceWorkerRegistration ?e2 defaultConfig =
      ([CallGetRegistration SW_SCRIPT, PostMessage 3 (INIT_FIREBASE_message defaultConfig)],
       Returned ?r2)"
    by simp
  from ensure_registration_state_check [of ?e3 defaultConfig _ ?r3] h3
  have c3: "ensureServiceWorkerRegistration ?e3 defaultConfig =
      ([CallGetRegistration SW_SCRIPT, CallRegister SW_SCRIPT], Returned ?r3)"
    by simp
  from ensure_registration_state_check [of example_env defaultConfig _ ?r4 1] h4 f4
  have c4: "ensureServiceWorkerRegistration example_env defaultConfig =
      ([CallGetRegistration SW_SCRIPT, CallRegister SW_SCRIPT, AddStatechangeListener 1,
        PostMessage 1 (INIT_FIREBASE_message defaultConfig)],
       Returned \<lparr>installing = None, waiting = None, active = Some 1\<rparr>)"
    by simp
  from ensure_registration_state_check [of ?e5 defaultConfig _ ?r4 1] h5 f5
  have c5: "ensureServiceWorkerRegistration ?e5 defaultConfig =
      ([CallGetRegistration SW_SCRIPT, CallRegister SW_SCRIPT, AddStatechangeListener 1], Pending)"
    by simp
  from c1 c2 c3 c4 c5 show ?thesis
    by (intro conjI)
qed

text \<open>
  The claim as it was stated fails in two places. A new registration that has an active
  worker already is used at once, although the worker being installed never reaches
  \<open>activated\<close>; and an existing registration whose only worker is still being installed
  gets no message.
\<close>

theorem ensure_registration_without_waiting:
  "ensureServiceWorkerRegistration
     (example_env\<lparr>register_result := Inr \<lparr>installing = Some 2, waiting = None, active = Some 1\<rparr>,
        statechange_events := []\<rparr>) defaultConfig =
     ([CallGetRegistration SW_SCRIPT, CallRegister SW_SCRIPT,
       PostMessage 1 (INIT_FIREBASE_message defaultConfig)],
      Returned \<lparr>installing = Some 2, waiting = None, active = Some 1\<rparr>) \<and>
   ensureServiceWorkerRegistration
     (example_env\<lparr>getRegistration_result :=
        Inr (Some \<lparr>installing = Some 2, waiting = None, active = None\<rparr>)\<rparr>) defaultConfig =
     ([CallGetRegistration SW_SCRIPT],
      Returned \<lparr>installing = Some 2, waiting = None, active = None\<rparr>)"
  by (simp add: ensureServiceWorkerRegistration_def andThen_def call_def post_init_def
      registrationReady_def example_env_def)

section \<open>Properties of the saved settings\<close>

lemma literal_not_array_index:
  "\<not> is_array_index (js ''config'')" "\<not> is_array_index (js ''vapidKey'')"
  "\<not> is_array_index (js ''serverKey'')" "\<not> is_array_index (js ''apiKey'')"
  "\<not> is_array_index (js ''authDomain'')" "\<not> is_array_index (js ''projectId'')"
  "\<not> is_array_index (js ''storageBucket'')" "\<not> is_array_index (js ''messagingSenderId'')"
  "\<not> is_array_index (js ''appId'')"
  by (simp_all add: is_array_index_def js_def is_digit_def)

lemma plain_settings_json: "plain (settings_json c v k)"
  by (simp add: settings_json_def config_json_def literal_not_array_index)

lemma settings_json_inject:
  "settings_json c v k = settings_json c' v' k' \<longleftrightarrow> c = c' \<and> v = v' \<and> k = k'"
  by (cases c; cases c') (auto simp: settings_json_def config_json_def)

text \<open>
  C4. Whatever the configuration, the VAPID key and the server key are, and whatever was
  stored before, \<open>loadSavedSettings\<close> after \<open>saveSettings\<close> returns the object
  \<open>{ config, vapidKey, serverKey }\<close> that was saved; the object determines the three.
\<close>

theorem settings_round_trip:
  "loadSavedSettings (saveSettings c v k ls) = settings_json c v k \<and>
   (loadSavedSettings (saveSettings c v k ls) = loadSavedSettings (saveSettings c' v' k' ls') \<longleftrightarrow>
      c = c' \<and> v = v' \<and> k = k')"
proof -
  have load: "loadSavedSettings (saveSettings c v k ls) = settings_json c v k" for c v k ls
    using JSON_parse_stringify [OF plain_settings_json, of c v k]
      JSON_stringify_not_empty [OF plain_settings_json, of c v k]
    by (simp add: loadSavedSettings_def saveSettings_def)
  show ?thesis
    by (simp only: load settings_json_inject)
qed

section \<open>Properties of the page\<close>

subsection \<open>Sending a push\<close>

lemma state_after_simps [simp]:
  "state_after e st [] = st"
  "state_after e st (a # as) = state_after e (apply_action e st a) as"
  by (simp_all add: state_after_def)

lemma parse_bad_data: "JSON_parse (js ''{foo'') = None"
  by code_simp

lemma parse_foo_bar:
  "JSON_parse (js ''{\"foo\":\"bar\"}'') = Some (JObj [(js ''foo'', JStr (js ''bar''))])"
  by code_simp

lemma trim_examples:
  "trim (js '' k1 '') = js ''k1''" "trim (js ''t1'') = js ''t1''" "trim (js ''  '') = []"
  "trim [] = []" "trim (js ''{foo'') = js ''{foo''" "trim (js ''BK'') = js ''BK''"
  "trim (js '' t1 '') = js ''t1''"
  by (simp_all add: trim_def js_def isWhiteSpace_def)

text \<open>
  C9. When the server key is blank, or the target token is blank, or the data is neither
  blank nor JSON, \<open>handleSendPush\<close> clears \<open>sendResult\<close>, adds one error to the log and
  does nothing else: it does not call \<open>fetch\<close> and never sets the sending flag.
\<close>

theorem send_push_rejects_invalid_input:
  assumes "trim (serverKey st) = [] \<or> trim (targetToken st) = [] \<or>
           (trim (pm_data (pushPayload st)) \<noteq> [] \<and> JSON_parse (pm_data (pushPayload st)) = None)"
  shows "(\<exists>msg. handleSendPush e st = ([SetSendResult [], AppendStatus Error msg], Returned ()) \<and>
            state_after e st (fst (handleSendPush e st)) =
              st\<lparr>sendResult := [],
                 statusMessages :=
                   \<lparr>sm_type = Error, sm_text = msg,
                    sm_timestamp = dateNow e (length (statusMessages st))\<rparr> # statusMessages st\<rparr>) \<and>
         \<not> list_ex is_fetch (fst (handleSendPush e st)) \<and>
         SetSending True \<notin> set (fst (handleSendPush e st))"
proof -
  from assms
  have "\<exists>msg. handleSendPush e st = ([SetSendResult [], AppendStatus Error msg], Returned ())"
    by (auto simp: handleSendPush_def andThen_def do_all_def parseDataPayload_def)
  then obtain msg
    where h: "handleSendPush e st = ([SetSendResult [], AppendStatus Error msg], Returned ())" ..
  have "handleSendPush e st = ([SetSendResult [], AppendStatus Error msg], Returned ()) \<and>
      state_after e st (fst (handleSendPush e st)) =
        st\<lparr>sendResult := [],
           statusMessages :=
             \<lparr>sm_type = Error, sm_text = msg,
              sm_timestamp = dateNow e (length (statusMessages st))\<rparr> # statusMessages st\<rparr>"
    by (simp add: h)
  moreover have "\<not> list_ex is_fetch (fst (handleSendPush e st))"
    by (simp add: h)
  moreover have "SetSending True \<notin> set (fst (handleSendPush e st))"
    by (simp add: h)
  ultimately show ?thesis by blast
qed

theorem send_push_rejects_invalid_input_witness:
  "(\<exists>msg. handleSendPush example_env initial_state =
      ([SetSendResult [], AppendStatus Error msg], Returned ())) \<and>
   (\<exists>msg. handleSendPush example_env (initial_state\<lparr>serverKey := js '' k1 ''\<rparr>) =
      ([SetSendResult [], AppendStatus Error msg], Returned ())) \<and>
   \<not> list_ex is_fetch (fst (handleSendPush example_env
      (initial_state\<lparr>serverKey := js '' k1 '', targetToken := js ''t1'',
         pushPayload := initialPushPayload\<lparr>pm_data := js ''{foo''\<rparr>\<rparr>)))"
proof -
  let ?s2 = "initial_state\<lparr>serverKey := js '' k1 ''\<rparr>"
  let ?s3 = "initial_state\<lparr>serverKey := js '' k1 '', targetToken := js ''t1'',
         pushPayload := initialPushPayload\<lparr>pm_data := js ''{foo''\<rparr>\<rparr>"
  have a: "trim (serverKey initial_state) = [] \<or> trim (targetToken initial_state) = [] \<or>
      (trim (pm_data (pushPayload initial_state)) \<noteq> [] \<and>
       JSON_parse (pm_data (pushPayload initial_state)) = None)"
    by (simp add: initial_state_def trim_examples)
  have b: "trim (serverKey ?s2) = [] \<or> trim (targetToken ?s2) = [] \<or>
      (trim (pm_data (pushPayload ?s2)) \<noteq> [] \<and> JSON_parse (pm_data (pushPayload ?s2)) = None)"
    by (simp add: initial_state_def trim_examples)
  have c: "trim (serverKey ?s3) = [] \<or> trim (targetToken ?s3) = [] \<or>
      (trim (pm_data (pushPayload ?s3)) \<noteq> [] \<and> JSON_parse (pm_data (pushPayload ?s3)) = None)"
    by (simp add: trim_examples parse_bad_data)
  from send_push_rejects_invalid_input [OF a, of example_env]
    send_push_rejects_invalid_input [OF b, of example_env]
    send_push_rejects_invalid_input [OF c, of example_env]
  show ?thesis by blast
qed

text \<open>
  What \<open>handleSendPush\<close> does once the three checks have passed, for each answer of the
  network.
\<close>

lemma send_push_valid:
  assumes "trim (serverKey st) \<noteq> []" and "trim (targetToken st) \<noteq> []"
    and "parseDataPayload (pm_data (pushPayload st)) = Inr dp"
  shows "handleSendPush e st =
    ([SetSendResult [], SetSending True, CallFetch (push_request st dp)] @
     (case fetch_result e of
        Inl err \<Rightarrow>
          [ConsoleError, AppendStatus Error MSG_SEND_ERROR,
           SetSendResult (error_message_or err MSG_UNKNOWN_ERROR)]
      | Inr response \<Rightarrow>
          CallResponseText #
          (case resp_text response of
             Inl err \<Rightarrow>
               [ConsoleError, AppendStatus Error MSG_SEND_ERROR,
                SetSendResult (error_message_or err MSG_UNKNOWN_ERROR)]
           | Inr resultText \<Rightarrow>
               if resp_ok response then
                 [SetSendResult resultText, AppendStatus Success MSG_SEND_DONE]
               else
                 [ConsoleError, AppendStatus Error MSG_SEND_ERROR,
                  SetSendResult (SEND_FAILED_PREFIX @ decimal (resp_status response) @
                                 js ''): '' @ resultText)])) @
     [SetSending False],
     Returned ())"
  using assms
  by (simp add: handleSendPush_def andThen_def do_all_def call_def try_catch_finally_def
      split: sum.splits)

lemma parseDataPayload_Inr:
  "trim d = [] \<or> JSON_parse d \<noteq> None \<Longrightarrow>
   parseDataPayload d = Inr (if trim d = [] then None else JSON_parse d)"
  by (auto simp: parseDataPayload_def)

lemma push_keys_not_array_index:
  "\<not> is_array_index (js ''to'')" "\<not> is_array_index (js ''notification'')"
  "\<not> is_array_index (js ''title'')" "\<not> is_array_index (js ''body'')"
  "\<not> is_array_index (js ''image'')" "\<not> is_array_index (js ''data'')"
  by (simp_all add: is_array_index_def js_def is_digit_def)

text \<open>
  The object \<open>body\<close> as the receiver of its text reads it: the data, when there are any,
  as they are read back, and everything else as it was written.
\<close>

lemma reread_push_body:
  "reread (push_body st dp) =
     JObj ([(js ''to'', JStr (trim (targetToken st))),
            (js ''notification'',
               JObj ([(js ''title'', JStr (pm_title (pushPayload st))),
                      (js ''body'', JStr (pm_body (pushPayload st)))] @
                     (if pm_imageUrl (pushPayload st) = [] then []
                      else [(js ''image'', JStr (pm_imageUrl (pushPayload st)))])))] @
           (case dp of
              None \<Rightarrow> []
            | Some v \<Rightarrow> if truthy v then [(js ''data'', reread v)] else []))"
  by (simp add: push_body_def obj_set_def push_keys_not_array_index split: option.splits)

text \<open>
  C7. A push that passes the three checks is sent by one call of \<open>fetch\<close>, a \<open>POST\<close> to
  \<open>https://fcm.googleapis.com/fcm/send\<close> whose \<open>Authorization\<close> header is \<open>key=\<close> followed
  by the trimmed server key. Its body is the text that \<open>JSON.stringify\<close> makes of the
  object \<open>body\<close>, and this text is JSON: \<open>JSON.parse\<close> reads it as an object whose \<open>to\<close>
  is the trimmed target token and whose \<open>notification\<close> has the title and the body of the
  form.
\<close>

theorem send_push_request:
  assumes "trim (serverKey st) \<noteq> []" and "trim (targetToken st) \<noteq> []"
    and "trim (pm_data (pushPayload st)) = [] \<or> JSON_parse (pm_data (pushPayload st)) \<noteq> None"
  shows "\<exists>req rest v.
           fst (handleSendPush e st) = SetSendResult [] # SetSending True # CallFetch req # rest \<and>
           \<not> list_ex is_fetch rest \<and>
           req_url req = js ''https://fcm.googleapis.com/fcm/send'' \<and>
           req_method req = js ''POST'' \<and>
           map_of (req_headers req) (js ''Authorization'') = Some (js ''key='' @ trim (serverKey st)) \<and>
           req_body req =
             JSON_stringify (push_body st
               (if trim (pm_data (pushPayload st)) = [] then None
                else JSON_parse (pm_data (pushPayload st)))) \<and>
           JSON_parse (req_body req) = Some v \<and>
           get_prop v (js ''to'') = Some (JStr (trim (targetToken st))) \<and>
           opt_prop (get_prop v (js ''notification'')) (js ''title'') =
             Some (JStr (pm_title (pushPayload st))) \<and>
           opt_prop (get_prop v (js ''notification'')) (js ''body'') =
             Some (JStr (pm_body (pushPayload st)))"
proof -
  let ?dp = "if trim (pm_data (pushPayload st)) = [] then None
             else JSON_parse (pm_data (pushPayload st))"
  have dp: "parseDataPayload (pm_data (pushPayload st)) = Inr ?dp"
    using assms(3) by (rule parseDataPayload_Inr)
  obtain rest where rest: "fst (handleSendPush e st) =
      SetSendResult [] # SetSending True # CallFetch (push_request st ?dp) # rest"
    and nofetch: "\<not> list_ex is_fetch rest"
    using send_push_valid [OF assms(1) assms(2) dp, of e]
    by (auto split: sum.splits)
  have head: "req_url (push_request st ?dp) = js ''https://fcm.googleapis.com/fcm/send'' \<and>
      req_method (push_request st ?dp) = js ''POST'' \<and>
      map_of (req_headers (push_request st ?dp)) (js ''Authorization'') =
        Some (js ''key='' @ trim (serverKey st)) \<and>
      req_body (push_request st ?dp) = JSON_stringify (push_body st ?dp)"
    by (simp add: push_request_def)
  have parse: "JSON_parse (req_body (push_request st ?dp)) = Some (reread (push_body st ?dp))"
    by (simp add: push_request_def JSON_parse_reread)
  have "to": "get_prop (reread (push_body st ?dp)) (js ''to'') = Some (JStr (trim (targetToken st)))"
    by (simp add: reread_push_body)
  have notification:
    "opt_prop (get_prop (reread (push_body st ?dp)) (js ''notification'')) (js ''title'') =
       Some (JStr (pm_title (pushPayload st)))"
    "opt_prop (get_prop (reread (push_body st ?dp)) (js ''notification'')) (js ''body'') =
       Some (JStr (pm_body (pushPayload st)))"
    by (simp_all add: reread_push_body)
  from rest nofetch head parse "to" notification show ?thesis by blast
qed

text \<open>
  Numbers in the data are written as \<open>Number::toString\<close> writes the double that was read.
\<close>

lemma number_text_examples:
  "JSON_stringify (JNum (StringToNumber (js ''1.0''))) = js ''1''"
  "JSON_stringify (JNum (StringToNumber (js ''1e2''))) = js ''100''"
  "JSON_stringify (JNum (StringToNumber (js ''-0.0''))) = js ''0''"
  "JSON_stringify (JNum (StringToNumber (js ''0.1''))) = js ''0.1''"
  "JSON_stringify (JNum (Infinite False)) = js ''null''"
  by code_simp+

lemma parse_number_data:
  "JSON_parse (js ''{\"n\":1.0}'') = Some (JObj [(js ''n'', JNum (Finite False 1))])"
  by code_simp

lemma push_body_text_example:
  "JSON_stringify (push_body
     (initial_state\<lparr>serverKey := js '' k1 '', targetToken := js '' t1 '',
        pushPayload := \<lparr>pm_title = js ''Hi'', pm_body = js ''there'', pm_imageUrl = [],
                        pm_data = js ''{\"n\":1.0}''\<rparr>\<rparr>)
     (Some (JObj [(js ''n'', JNum (Finite False 1))]))) =
   js ''{\"to\":\"t1\",\"notification\":{\"title\":\"Hi\",\"body\":\"there\"},\"data\":{\"n\":1}}''"
  by code_simp

theorem send_push_request_witness:
  "\<exists>req rest v.
     fst (handleSendPush example_env
       (initial_state\<lparr>serverKey := js '' k1 '', targetToken := js '' t1 '',
          pushPayload := \<lparr>pm_title = js ''Hi'', pm_body = js ''there'', pm_imageUrl = [],
                          pm_data = js ''{\"n\":1.0}''\<rparr>\<rparr>)) =
       SetSendResult [] # SetSending True # CallFetch req # rest \<and>
     \<not> list_ex is_fetch rest \<and>
     req_url req = js ''https://fcm.googleapis.com/fcm/send'' \<and>
     req_method req = js ''POST'' \<and>
     map_of (req_headers req) (js ''Authorization'') = Some (js ''key=k1'') \<and>
     req_body req =
       js ''{\"to\":\"t1\",\"notification\":{\"title\":\"Hi\",\"body\":\"there\"},\"data\":{\"n\":1}}'' \<and>
     JSON_parse (req_body req) = Some v \<and>
     get_prop v (js ''to'') = Some (JStr (js ''t1'')) \<and>
     opt_prop (get_prop v (js ''notification'')) (js ''title'') = Some (JStr (js ''Hi'')) \<and>
     opt_prop (get_prop v (js ''notification'')) (js ''body'') = Some (JStr (js ''there''))"
proof -
  let ?st = "initial_state\<lparr>serverKey := js '' k1 '', targetToken := js '' t1 '',
      pushPayload := \<lparr>pm_title = js ''Hi'', pm_body = js ''there'', pm_imageUrl = [],
                      pm_data = js ''{\"n\":1.0}''\<rparr>\<rparr>"
  have d: "trim (js ''{\"n\":1.0}'') \<noteq> []"
    by (simp add: trim_def js_def isWhiteSpace_def)
  have a: "trim (serverKey ?st) \<noteq> []" and b: "trim (targetToken ?st) \<noteq> []"
    by (simp_all add: trim_examples)
  have c: "trim (pm_data (pushPayload ?st)) = [] \<or> JSON_parse (pm_data (pushPayload ?st)) \<noteq> None"
    by (simp add: parse_number_data)
  have k: "js ''key='' @ trim (serverKey ?st) = js ''key=k1''"
    by (simp add: trim_examples js_append)
  have t: "trim (targetToken ?st) = js ''t1''"
    by (simp add: trim_examples)
  have p: "pm_title (pushPayload ?st) = js ''Hi''" "pm_body (pushPayload ?st) = js ''there''"
    by simp_all
  have body: "JSON_stringify (push_body ?st
       (if trim (pm_data (pushPayload ?st)) = [] then None
        else JSON_parse (pm_data (pushPayload ?st)))) =
      js ''{\"to\":\"t1\",\"notification\":{\"title\":\"Hi\",\"body\":\"there\"},\"data\":{\"n\":1}}''"
    using push_body_text_example by (simp add: d parse_number_data)
  from send_push_request [OF a b c, of example_env] show ?thesis
    unfolding k t p body .
qed

text \<open>
  C6. When a push has passed the three checks and the request fails, because \<open>fetch\<close> or
  the reading of the answer is rejected or because the answer is not ok, the log gets the
  error entry and \<open>sendResult\<close> the description of the error: the message of the
  rejection, or the failure text with the status and the answer. Whatever the network
  answers, the handler ends by resetting the sending flag; and a run that stops at one of
  the checks leaves the flag as it was, which is reset, since the page disables the
  button while the flag is set.
\<close>

theorem send_push_network_failure:
  "(send_checks_pass st \<and>
    (fetch_result e = Inl err \<or> (fetch_result e = Inr response \<and> resp_text response = Inl err)) \<longrightarrow>
      state_after e st (fst (handleSendPush e st)) =
        st\<lparr>sendResult := error_message_or err MSG_UNKNOWN_ERROR,
           statusMessages :=
             \<lparr>sm_type = Error, sm_text = MSG_SEND_ERROR,
              sm_timestamp = dateNow e (length (statusMessages st))\<rparr> # statusMessages st,
           sending := False\<rparr>) \<and>
   (send_checks_pass st \<and> fetch_result e = Inr response \<and>
    resp_text response = Inr resultText \<and> \<not> resp_ok response \<longrightarrow>
      state_after e st (fst (handleSendPush e st)) =
        st\<lparr>sendResult := SEND_FAILED_PREFIX @ decimal (resp_status response) @
                         js ''): '' @ resultText,
           statusMessages :=
             \<lparr>sm_type = Error, sm_text = MSG_SEND_ERROR,
              sm_timestamp = dateNow e (length (statusMessages st))\<rparr> # statusMessages st,
           sending := False\<rparr>) \<and>
   (send_checks_pass st \<longrightarrow> last (fst (handleSendPush e st)) = SetSending False) \<and>
   (send_checks_pass st \<or> \<not> sending st \<longrightarrow>
      sending (state_after e st (fst (handleSendPush e st))) = False) \<and>
   snd (handleSendPush e st) = Returned ()"
proof (cases "send_checks_pass st")
  case True
  let ?dp = "if trim (pm_data (pushPayload st)) = [] then None
             else JSON_parse (pm_data (pushPayload st))"
  from True have a: "trim (serverKey st) \<noteq> []" and b: "trim (targetToken st) \<noteq> []"
    and c: "trim (pm_data (pushPayload st)) = [] \<or> JSON_parse (pm_data (pushPayload st)) \<noteq> None"
    by (simp_all add: send_checks_pass_def)
  have dp: "parseDataPayload (pm_data (pushPayload st)) = Inr ?dp"
    using c by (rule parseDataPayload_Inr)
  note run = send_push_valid [OF a b dp, of e]
  show ?thesis
    unfolding run
    by (cases "fetch_result e"; cases "resp_text response"; cases "resp_ok response")
       (auto split: sum.splits)
next
  case False
  then have "trim (serverKey st) = [] \<or> trim (targetToken st) = [] \<or>
      (trim (pm_data (pushPayload st)) \<noteq> [] \<and> JSON_parse (pm_data (pushPayload st)) = None)"
    by (auto simp: send_checks_pass_def)
  then have "\<exists>msg. handleSendPush e st = ([SetSendResult [], AppendStatus Error msg], Returned ())"
    by (auto simp: handleSendPush_def andThen_def do_all_def parseDataPayload_def)
  then obtain msg
    where h: "handleSendPush e st = ([SetSendResult [], AppendStatus Error msg], Returned ())" ..
  from False show ?thesis
    by (simp add: h)
qed

theorem send_push_network_failure_witness:
  "sendResult (state_after example_env
       (initial_state\<lparr>serverKey := js '' k1 '', targetToken := js ''t1''\<rparr>)
       (fst (handleSendPush
          (example_env\<lparr>fetch_result := Inl (JsError (Some (js ''Failed to fetch'')))\<rparr>)
          (initial_state\<lparr>serverKey := js '' k1 '', targetToken := js ''t1''\<rparr>)))) =
     js ''Failed to fetch'' \<and>
   sending (state_after
       (example_env\<lparr>fetch_result :=
          Inr \<lparr>resp_ok = False, resp_status = 401, resp_text = Inr (js ''Unauthorized'')\<rparr>\<rparr>)
       (initial_state\<lparr>serverKey := js '' k1 '', targetToken := js ''t1''\<rparr>)
       (fst (handleSendPush
          (example_env\<lparr>fetch_result :=
             Inr \<lparr>resp_ok = False, resp_status = 401, resp_text = Inr (js ''Unauthorized'')\<rparr>\<rparr>)
          (initial_state\<lparr>serverKey := js '' k1 '', targetToken := js ''t1''\<rparr>)))) = False \<and>
   sendResult (state_after
       (example_env\<lparr>fetch_result :=
          Inr \<lparr>resp_ok = False, resp_status = 401, resp_text = Inr (js ''Unauthorized'')\<rparr>\<rparr>)
       (initial_state\<lparr>serverKey := js '' k1 '', targetToken := js ''t1''\<rparr>)
       (fst (handleSendPush
          (example_env\<lparr>fetch_result :=
             Inr \<lparr>resp_ok = False, resp_status = 401, resp_text = Inr (js ''Unauthorized'')\<rparr>\<rparr>)
          (initial_state\<lparr>serverKey := js '' k1 '', targetToken := js ''t1''\<rparr>)))) =
     SEND_FAILED_PREFIX @ js ''401): Unauthorized''"
proof -
  let ?st = "initial_state\<lparr>serverKey := js '' k1 '', targetToken := js ''t1''\<rparr>"
  let ?e1 = "example_env\<lparr>fetch_result := Inl (JsError (Some (js ''Failed to fetch'')))\<rparr>"
  let ?r2 = "\<lparr>resp_ok = False, resp_status = 401, resp_text = Inr (js ''Unauthorized'')\<rparr>"
  let ?e2 = "example_env\<lparr>fetch_result := Inr ?r2\<rparr>"
  have v: "send_checks_pass ?st"
    by (simp add: send_checks_pass_def trim_examples initial_state_def initialPushPayload_def
        parse_foo_bar)
  have d1: "fetch_result ?e1 = Inl (JsError (Some (js ''Failed to fetch'')))"
    by simp
  have d2: "fetch_result ?e2 = Inr ?r2 \<and> resp_text ?r2 = Inr (js ''Unauthorized'') \<and> \<not> resp_ok ?r2"
    by simp
  have s: "state_after ?e1 ?st as = state_after example_env ?st as" for as
    by (induction as arbitrary: rule: rev_induct)
       (simp_all add: state_after_def, case_tac x, simp_all)
  have rendered: "decimal (resp_status ?r2) @ js ''): '' @ js ''Unauthorized'' =
      js ''401): Unauthorized''"
    by (simp add: decimal.simps js_def digit_char_def)
  from send_push_network_failure [of ?st ?e1 "JsError (Some (js ''Failed to fetch''))"] v d1
  have "sendResult (state_after ?e1 ?st (fst (handleSendPush ?e1 ?st))) = js ''Failed to fetch''"
    by simp
  moreover from send_push_network_failure [of ?st ?e2] v
  have "sending (state_after ?e2 ?st (fst (handleSendPush ?e2 ?st))) = False"
    by blast
  moreover from send_push_network_failure [of ?st ?e2 _ ?r2 "js ''Unauthorized''"] v d2
  have "sendResult (state_after ?e2 ?st (fst (handleSendPush ?e2 ?st))) =
      SEND_FAILED_PREFIX @ decimal (resp_status ?r2) @ js ''): '' @ js ''Unauthorized''"
    by simp
  ultimately show ?thesis
    by (simp only: s rendered)
qed

subsection \<open>Asking for the permission\<close>

text \<open>
  C5. When the handler has asked for the permission and the answer is anything but
  \<open>granted\<close>, it adds the error to the log and returns: \<open>getToken\<close> is not called, and
  \<open>token\<close> and \<open>targetToken\<close> are as before.
\<close>

theorem permission_not_granted:
  assumes "messaging st = Some m" and "trim (vapidKey st) \<noteq> []" and "Notification_defined e"
    and "requestPermission_result e = Inr permission" and "permission \<noteq> js ''granted''"
  shows "handleRequestPermissionAndToken e st =
           ([CallRequestPermission, AppendStatus Error MSG_PERMISSION_DENIED], Returned ()) \<and>
         \<not> list_ex is_getToken (fst (handleRequestPermissionAndToken e st)) \<and>
         state_after e st (fst (handleRequestPermissionAndToken e st)) =
           st\<lparr>statusMessages :=
                \<lparr>sm_type = Error, sm_text = MSG_PERMISSION_DENIED,
                 sm_timestamp = dateNow e (length (statusMessages st))\<rparr> # statusMessages st\<rparr> \<and>
         token (state_after e st (fst (handleRequestPermissionAndToken e st))) = token st \<and>
         targetToken (state_after e st (fst (handleRequestPermissionAndToken e st))) = targetToken st"
proof -
  from assms have h: "handleRequestPermissionAndToken e st =
      ([CallRequestPermission, AppendStatus Error MSG_PERMISSION_DENIED], Returned ())"
    by (simp add: handleRequestPermissionAndToken_def andThen_def do_all_def call_def
        try_catch_finally_def)
  show ?thesis
    by (simp add: h)
qed

theorem permission_not_granted_witness:
  "handleRequestPermissionAndToken (example_env\<lparr>requestPermission_result := Inr (js ''denied'')\<rparr>)
     (initial_state\<lparr>messaging := Some 1, vapidKey := js ''BK''\<rparr>) =
     ([CallRequestPermission, AppendStatus Error MSG_PERMISSION_DENIED], Returned ()) \<and>
   token (state_after (example_env\<lparr>requestPermission_result := Inr (js ''denied'')\<rparr>)
     (initial_state\<lparr>messaging := Some 1, vapidKey := js ''BK''\<rparr>)
     (fst (handleRequestPermissionAndToken
        (example_env\<lparr>requestPermission_result := Inr (js ''denied'')\<rparr>)
        (initial_state\<lparr>messaging := Some 1, vapidKey := js ''BK''\<rparr>)))) = []"
proof -
  let ?e = "example_env\<lparr>requestPermission_result := Inr (js ''denied'')\<rparr>"
  let ?st = "initial_state\<lparr>messaging := Some 1, vapidKey := js ''BK''\<rparr>"
  have a: "messaging ?st = Some 1" and b: "trim (vapidKey ?st) \<noteq> []"
    and c: "Notification_defined ?e" and d: "requestPermission_result ?e = Inr (js ''denied'')"
    and f: "js ''denied'' \<noteq> js ''granted''" and t: "token ?st = []"
    by (simp_all add: trim_examples example_env_def initial_state_def)
  from permission_not_granted [OF a b c d f] t show ?thesis
    by simp
qed

subsection \<open>The order of the calls\<close>

lemma precedes_append_skip:
  "\<forall>x\<in>set xs. \<not> P x \<and> \<not> Q x \<Longrightarrow> precedes P Q (xs @ ys) = precedes P Q ys"
  by (induction xs) simp_all

lemma precedes_no_Q: "\<forall>x\<in>set xs. \<not> Q x \<Longrightarrow> precedes P Q xs"
  by (induction xs) simp_all

lemma ensure_actions:
  "a \<in> set (fst (ensureServiceWorkerRegistration e c)) \<Longrightarrow> is_registration a"
  by (auto simp: ensureServiceWorkerRegistration_def andThen_def call_def post_init_def
      registrationReady_def split: sum.splits option.splits if_splits)

lemma delete_apps_actions:
  "a \<in> set (fst (delete_apps e)) \<Longrightarrow> (\<exists>app. a = CallDeleteApp app) \<or> a = AppendStatus Info MSG_APPS_RESET"
  by (auto simp: delete_apps_def Let_def split: list.splits if_splits)

lemma initialize_order:
  "precedes is_initializeApp is_getMessaging (fst (handleInitializeFirebase e st)) \<and>
   precedes is_getMessaging is_registration (fst (handleInitializeFirebase e st)) \<and>
   \<not> list_ex is_fetch (fst (handleInitializeFirebase e st))"
proof -
  obtain ds dr where d: "delete_apps e = (ds, dr)"
    by (cases "delete_apps e")
  obtain es er where en: "ensureServiceWorkerRegistration e (firebaseConfig st) = (es, er)"
    by (cases "ensureServiceWorkerRegistration e (firebaseConfig st)")
  have ds: "\<forall>a\<in>set ds. \<not> is_initializeApp a \<and> \<not> is_getMessaging a \<and> \<not> is_registration a \<and> \<not> is_fetch a"
  proof
    fix a assume "a \<in> set ds"
    then have "(\<exists>app. a = CallDeleteApp app) \<or> a = AppendStatus Info MSG_APPS_RESET"
      using delete_apps_actions [of a e] by (simp add: d)
    then show "\<not> is_initializeApp a \<and> \<not> is_getMessaging a \<and> \<not> is_registration a \<and> \<not> is_fetch a"
      by auto
  qed
  have es: "\<forall>a\<in>set es. is_registration a"
    using ensure_actions [of _ e "firebaseConfig st"] by (simp add: en)
  have es': "\<forall>a\<in>set es. \<not> is_fetch a"
  proof
    fix a assume "a \<in> set es"
    with es have "is_registration a" by blast
    then show "\<not> is_fetch a" by (cases a) simp_all
  qed
  from ds have skip1: "precedes is_initializeApp is_getMessaging (ds @ ys) =
      precedes is_initializeApp is_getMessaging ys" for ys
    by (intro precedes_append_skip) blast
  from ds have skip2: "precedes is_getMessaging is_registration (ds @ ys) =
      precedes is_getMessaging is_registration ys" for ys
    by (intro precedes_append_skip) blast
  from ds have none1: "precedes is_initializeApp is_getMessaging ds"
    by (intro precedes_no_Q) blast
  from ds have none2: "precedes is_getMessaging is_registration ds"
    by (intro precedes_no_Q) blast
  from ds es' have nofetch: "\<not> list_ex is_fetch ds" "\<not> list_ex is_fetch es"
    by (simp_all add: list_ex_iff)
  show ?thesis
    using skip1 skip2 none1 none2 nofetch
    by (cases dr; cases er; cases "isSupported_result e"; cases "initializeApp_result e";
        cases "getMessaging_result e")
       (simp_all add: handleInitializeFirebase_def andThen_def do_all_def call_def
          try_catch_finally_def d en)
qed

lemma request_token_order:
  "precedes is_requestPermission is_getToken (fst (handleRequestPermissionAndToken e st)) \<and>
   \<not> list_ex is_fetch (fst (handleRequestPermissionAndToken e st))"
proof -
  obtain es er where en: "ensureServiceWorkerRegistration e (firebaseConfig st) = (es, er)"
    by (cases "ensureServiceWorkerRegistration e (firebaseConfig st)")
  have es: "\<forall>a\<in>set es. is_registration a"
    using ensure_actions [of _ e "firebaseConfig st"] by (simp add: en)
  have "\<forall>a\<in>set es. \<not> is_fetch a"
  proof
    fix a assume "a \<in> set es"
    with es have "is_registration a" by blast
    then show "\<not> is_fetch a" by (cases a) simp_all
  qed
  then have nofetch: "\<not> list_ex is_fetch es"
    by (simp add: list_ex_iff)
  show ?thesis
    using nofetch
    by (cases er; cases "requestPermission_result e"; cases "getToken_result e";
        cases "messaging st")
       (simp_all add: handleRequestPermissionAndToken_def andThen_def do_all_def call_def
          try_catch_finally_def en)
qed

lemma send_push_calls:
  "\<not> list_ex is_lifecycle_call (fst (handleSendPush e st)) \<and>
   (list_ex is_fetch (fst (handleSendPush e st)) \<longleftrightarrow>
      trim (serverKey st) \<noteq> [] \<and> trim (targetToken st) \<noteq> [] \<and>
      (trim (pm_data (pushPayload st)) = [] \<or> JSON_parse (pm_data (pushPayload st)) \<noteq> None))"
  by (cases "fetch_result e")
     (auto simp: handleSendPush_def andThen_def do_all_def call_def try_catch_finally_def
        parseDataPayload_def is_lifecycle_call_def split: sum.splits option.splits)

text \<open>
  C2, as amended. In \<open>handleInitializeFirebase\<close> no call of \<open>getMessaging\<close> comes before
  the call of \<open>initializeApp\<close> and no step of the service-worker registration before the
  call of \<open>getMessaging\<close>; in \<open>handleRequestPermissionAndToken\<close> no call of \<open>getToken\<close>
  comes before the request for the permission; neither handler calls \<open>fetch\<close>. The send
  is made by \<open>handleSendPush\<close> alone, which makes none of those calls and does not need
  them to have been made: it calls \<open>fetch\<close> exactly when the server key and the target
  token are not blank and the data is blank or JSON.
\<close>

theorem lifecycle_order:
  "precedes is_initializeApp is_getMessaging (fst (handleInitializeFirebase e st)) \<and>
   precedes is_getMessaging is_registration (fst (handleInitializeFirebase e st)) \<and>
   precedes is_requestPermission is_getToken (fst (handleRequestPermissionAndToken e st)) \<and>
   \<not> list_ex is_fetch (fst (handleInitializeFirebase e st)) \<and>
   \<not> list_ex is_fetch (fst (handleRequestPermissionAndToken e st)) \<and>
   \<not> list_ex is_lifecycle_call (fst (handleSendPush e st)) \<and>
   (list_ex is_fetch (fst (handleSendPush e st)) \<longleftrightarrow>
      trim (serverKey st) \<noteq> [] \<and> trim (targetToken st) \<noteq> [] \<and>
      (trim (pm_data (pushPayload st)) = [] \<or> JSON_parse (pm_data (pushPayload st)) \<noteq> None))"
  using initialize_order [of e st] request_token_order [of e st] send_push_calls [of e st]
  by blast

text \<open>
  On a first visit the user types a server key and a target token and presses the send
  button: the request is made, and nothing has been initialised and no token issued.
\<close>

theorem send_before_initialization:
  "list_ex is_fetch (snd (session example_env
      [ChangeServerKey (js ''k1''), ChangeTargetToken (js ''t1''), ClickSendPush])) \<and>
   \<not> list_ex is_lifecycle_call (snd (session example_env
      [ChangeServerKey (js ''k1''), ChangeTargetToken (js ''t1''), ClickSendPush])) \<and>
   messaging (fst (session example_env
      [ChangeServerKey (js ''k1''), ChangeTargetToken (js ''t1''), ClickSendPush])) = None \<and>
   token (fst (session example_env
      [ChangeServerKey (js ''k1''), ChangeTargetToken (js ''t1''), ClickSendPush])) = []"
  by code_simp

end
